theory Spec2Isabelle
  imports Main "HOL-Library.Sublist"
begin

section \<open>The semver package as the sources use it\<close>

text \<open>
  \<^verbatim>\<open>installations.ts\<close> calls \<^verbatim>\<open>satisfies(version, range)\<close> and the v1.80 installer
  calls \<^verbatim>\<open>new SemVer(s)\<close>, \<^verbatim>\<open>compareMain\<close> and \<^verbatim>\<open>.raw\<close>, all of the npm package
  \<^verbatim>\<open>semver\<close> (strict mode, no options). The package is a dependency and not a file of
  the repository; this section follows its published behaviour (node-semver 7):
  the \<^verbatim>\<open>FULL\<close> regular expression for version strings, the comparison functions, the
  desugaring of an x-range and \<^verbatim>\<open>testSet\<close>.
  Strings are lists of 8-bit characters, read as the code points below 256. Of the white
  space that \<^verbatim>\<open>String.prototype.trim\<close> removes, these hold the ASCII white space and the
  no-break space U+00A0; the others (U+FEFF, U+2003 and so on) cannot be written here.
\<close>

definition MAX_LENGTH :: nat where
  "MAX_LENGTH = 256"

definition MAX_SAFE_INTEGER :: nat where
  "MAX_SAFE_INTEGER = 9007199254740991"

definition isDigit :: "char \<Rightarrow> bool" where
  "isDigit c = (c \<in> set ''0123456789'')"

definition isLetterDashNumber :: "char \<Rightarrow> bool" where
  "isLetterDashNumber c =
     (c \<in> set ''0123456789abcdefghijklmnopqrstuvwxyzABCDEFGHIJKLMNOPQRSTUVWXYZ-'')"

definition isSpace :: "char \<Rightarrow> bool" where
  "isSpace c = (c \<in> set [CHR '' '', CHR 0x09, CHR 0x0A, CHR 0x0B, CHR 0x0C, CHR 0x0D, CHR 0xA0])"

definition trim :: "string \<Rightarrow> string" where
  "trim s = rev (dropWhile isSpace (rev (dropWhile isSpace s)))"

text \<open>\<^verbatim>\<open>s.split(c)\<close> for a one-character separator: the empty string gives one empty piece.\<close>

fun split :: "char \<Rightarrow> string \<Rightarrow> string list" where
  "split c [] = [[]]"
| "split c (x # xs) =
     (if x = c then [] # split c xs
      else (case split c xs of [] \<Rightarrow> [[x]] | p # ps \<Rightarrow> (x # p) # ps))"

definition digitValue :: "char \<Rightarrow> nat" where
  "digitValue c = of_char c - 48"

definition toNumber :: "string \<Rightarrow> nat" where
  "toNumber s = foldl (\<lambda>n c. 10 * n + digitValue c) 0 s"

text \<open>\<^verbatim>\<open>NUMERICIDENTIFIER = 0|[1-9]\d*\<close>\<close>

definition numericIdentifier :: "string \<Rightarrow> bool" where
  "numericIdentifier s =
     (s \<noteq> [] \<and> list_all isDigit s \<and> (s = ''0'' \<or> hd s \<noteq> CHR ''0''))"

text \<open>\<^verbatim>\<open>PRERELEASEIDENTIFIER = (?:0|[1-9]\d*|\d*[a-zA-Z-][a-zA-Z0-9-]*)\<close>\<close>

definition prereleaseIdentifier :: "string \<Rightarrow> bool" where
  "prereleaseIdentifier s =
     (s \<noteq> [] \<and> list_all isLetterDashNumber s \<and> (list_all isDigit s \<longrightarrow> numericIdentifier s))"

text \<open>\<^verbatim>\<open>BUILDIDENTIFIER = [a-zA-Z0-9-]+\<close>\<close>

definition buildIdentifier :: "string \<Rightarrow> bool" where
  "buildIdentifier s = (s \<noteq> [] \<and> list_all isLetterDashNumber s)"

text \<open>
  A parsed prerelease identifier: an identifier of digits only counts as a number, any
  other as a string. (The package keeps a number beyond \<^verbatim>\<open>MAX_SAFE_INTEGER\<close> as a string
  and still compares it by its value, rounded to a double; here its value is exact.)
\<close>

datatype ident = Num nat | Str string

definition toIdentifier :: "string \<Rightarrow> ident" where
  "toIdentifier s = (if list_all isDigit s then Num (toNumber s) else Str s)"

record SemVer =
  raw :: string
  major :: nat
  minor :: nat
  patch :: nat
  prerelease :: "ident list"
  build :: "string list"

datatype exception =
    VersionNotFound string
  | TypeError string
  | MalformedStateError "string list"
  | StateValidationError string
  | InfrastructureError string

text \<open>
  The groups of \<^verbatim>\<open>FULL = ^v?(M).(m).(p)(?:-(pre))?(?:+(build))?$\<close> on a trimmed string:
  the three numeric identifiers, the prerelease text and the build text (each absent when
  its group did not take part), or \<open>None\<close> when the string does not match.
\<close>

definition matchTail :: "string \<Rightarrow> (string option \<times> string option) option" where
  "matchTail r =
     (case r of
        [] \<Rightarrow> Some (None, None)
      | c # t \<Rightarrow>
          if c = CHR ''-'' then
            (let p = takeWhile (\<lambda>x. x \<noteq> CHR ''+'') t; r2 = dropWhile (\<lambda>x. x \<noteq> CHR ''+'') t in
             if \<not> list_all prereleaseIdentifier (split (CHR ''.'') p) then None
             else (case r2 of
                     [] \<Rightarrow> Some (Some p, None)
                   | _ # b \<Rightarrow>
                       if list_all buildIdentifier (split (CHR ''.'') b)
                       then Some (Some p, Some b) else None))
          else if c = CHR ''+'' then
            (if list_all buildIdentifier (split (CHR ''.'') t) then Some (None, Some t) else None)
          else None)"

definition matchFULL ::
  "string \<Rightarrow> (string \<times> string \<times> string \<times> string option \<times> string option) option" where
  "matchFULL s =
     (let s1 = (case s of c # t \<Rightarrow> if c = CHR ''v'' then t else s | [] \<Rightarrow> s);
          main = takeWhile (\<lambda>x. isDigit x \<or> x = CHR ''.'') s1;
          rest = dropWhile (\<lambda>x. isDigit x \<or> x = CHR ''.'') s1
      in case split (CHR ''.'') main of
           [M, m, p] \<Rightarrow>
             if numericIdentifier M \<and> numericIdentifier m \<and> numericIdentifier p then
               (case matchTail rest of
                  None \<Rightarrow> None
                | Some (pr, b) \<Rightarrow> Some (M, m, p, pr, b))
             else None
         | _ \<Rightarrow> None)"

text \<open>\<^verbatim>\<open>new SemVer(version)\<close>: a \<^verbatim>\<open>TypeError\<close> or the parsed version; \<^verbatim>\<open>raw\<close> keeps the argument.\<close>

definition new_SemVer :: "string \<Rightarrow> exception + SemVer" where
  "new_SemVer version =
     (if length version > MAX_LENGTH then
        Inl (TypeError ''version is longer than 256 characters'')
      else case matchFULL (trim version) of
        None \<Rightarrow> Inl (TypeError (''Invalid Version: '' @ version))
      | Some (M, m, p, pr, b) \<Rightarrow>
          if toNumber M > MAX_SAFE_INTEGER then Inl (TypeError ''Invalid major version'')
          else if toNumber m > MAX_SAFE_INTEGER then Inl (TypeError ''Invalid minor version'')
          else if toNumber p > MAX_SAFE_INTEGER then Inl (TypeError ''Invalid patch version'')
          else Inr \<lparr> raw = version, major = toNumber M, minor = toNumber m, patch = toNumber p,
                     prerelease = (case pr of None \<Rightarrow> [] | Some t \<Rightarrow> map toIdentifier (split (CHR ''.'') t)),
                     build = (case b of None \<Rightarrow> [] | Some t \<Rightarrow> split (CHR ''.'') t) \<rparr>)"

subsection \<open>Comparison\<close>

text \<open>JavaScript's \<^verbatim>\<open>a < b\<close> on strings: by code unit, a proper prefix first.\<close>

fun stringLess :: "string \<Rightarrow> string \<Rightarrow> bool" where
  "stringLess [] [] = False"
| "stringLess [] (y # ys) = True"
| "stringLess (x # xs) [] = False"
| "stringLess (x # xs) (y # ys) =
     (if x = y then stringLess xs ys else (of_char x :: nat) < of_char y)"

definition compareNumbers :: "nat \<Rightarrow> nat \<Rightarrow> int" where
  "compareNumbers a b = (if a = b then 0 else if a < b then -1 else 1)"

fun compareIdentifiers :: "ident \<Rightarrow> ident \<Rightarrow> int" where
  "compareIdentifiers (Num a) (Num b) = compareNumbers a b"
| "compareIdentifiers (Num a) (Str b) = -1"
| "compareIdentifiers (Str a) (Num b) = 1"
| "compareIdentifiers (Str a) (Str b) = (if a = b then 0 else if stringLess a b then -1 else 1)"

definition compareMain :: "SemVer \<Rightarrow> SemVer \<Rightarrow> int" where
  "compareMain this other =
     (if compareNumbers (major this) (major other) \<noteq> 0 then compareNumbers (major this) (major other)
      else if compareNumbers (minor this) (minor other) \<noteq> 0 then compareNumbers (minor this) (minor other)
      else compareNumbers (patch this) (patch other))"

text \<open>The loop of \<^verbatim>\<open>comparePre\<close> over the two lists of identifiers, from the same index.\<close>

fun comparePreLoop :: "ident list \<Rightarrow> ident list \<Rightarrow> int" where
  "comparePreLoop [] [] = 0"
| "comparePreLoop (a # as) [] = 1"
| "comparePreLoop [] (b # bs) = -1"
| "comparePreLoop (a # as) (b # bs) =
     (if a = b then comparePreLoop as bs else compareIdentifiers a b)"

definition comparePre :: "SemVer \<Rightarrow> SemVer \<Rightarrow> int" where
  "comparePre this other =
     (if prerelease this \<noteq> [] \<and> prerelease other = [] then -1
      else if prerelease this = [] \<and> prerelease other \<noteq> [] then 1
      else if prerelease this = [] \<and> prerelease other = [] then 0
      else comparePreLoop (prerelease this) (prerelease other))"

definition compare :: "SemVer \<Rightarrow> SemVer \<Rightarrow> int" where
  "compare this other =
     (if compareMain this other \<noteq> 0 then compareMain this other else comparePre this other)"

subsection \<open>Ranges\<close>

text \<open>
  The registry's keys are x-ranges \<^verbatim>\<open>vM.m.x\<close>; the package rewrites such a range to the
  comparator set \<^verbatim>\<open>>=M.m.0 <M.(m+1).0-0\<close>. Only the two operators of that set are
  modelled, and \<open>parseRange\<close> reads only ranges of this shape: it gives \<open>None\<close> on any
  other text, so \<open>satisfies\<close> below says what the package says exactly for such ranges,
  which are all the sources ever pass.
\<close>

datatype operator = GTE | LT

record Comparator =
  operator :: operator
  semver :: SemVer

definition mkSemVer :: "nat \<Rightarrow> nat \<Rightarrow> nat \<Rightarrow> ident list \<Rightarrow> SemVer" where
  "mkSemVer M m p pr =
     \<lparr> raw = [], major = M, minor = m, patch = p, prerelease = pr, build = [] \<rparr>"

definition isX :: "string \<Rightarrow> bool" where
  "isX s = (s = ''x'' \<or> s = ''X'' \<or> s = ''*'')"

definition xRange :: "nat \<Rightarrow> nat \<Rightarrow> Comparator list" where
  "xRange M m =
     [\<lparr> operator = GTE, semver = mkSemVer M m 0 [] \<rparr>,
      \<lparr> operator = LT, semver = mkSemVer M (m + 1) 0 [Num 0] \<rparr>]"

definition parseRange :: "string \<Rightarrow> Comparator list option" where
  "parseRange rng =
     (let s = trim rng;
          s1 = (case s of c # t \<Rightarrow> if c = CHR ''v'' then t else s | [] \<Rightarrow> s)
      in case split (CHR ''.'') s1 of
           [M, m, p] \<Rightarrow>
             if numericIdentifier M \<and> numericIdentifier m \<and> isX p
             then Some (xRange (toNumber M) (toNumber m))
             else None
         | _ \<Rightarrow> None)"

definition cmp :: "SemVer \<Rightarrow> operator \<Rightarrow> SemVer \<Rightarrow> bool" where
  "cmp a op b = (case op of GTE \<Rightarrow> compare a b \<ge> 0 | LT \<Rightarrow> compare a b < 0)"

definition Comparator_test :: "Comparator \<Rightarrow> SemVer \<Rightarrow> bool" where
  "Comparator_test c version = cmp version (operator c) (semver c)"

definition testSet :: "Comparator list \<Rightarrow> SemVer \<Rightarrow> bool" where
  "testSet cs version =
     (if \<not> list_all (\<lambda>c. Comparator_test c version) cs then False
      else if prerelease version \<noteq> [] then
        list_ex (\<lambda>c. prerelease (semver c) \<noteq> []
                     \<and> major (semver c) = major version
                     \<and> minor (semver c) = minor version
                     \<and> patch (semver c) = patch version) cs
      else True)"

text \<open>
  \<^verbatim>\<open>satisfies(version, range)\<close>: false when the range or the version does not parse,
  else the test of the one comparator set.
\<close>

definition satisfies :: "string \<Rightarrow> string \<Rightarrow> bool" where
  "satisfies version rng =
     (case parseRange rng of
        None \<Rightarrow> False
      | Some cs \<Rightarrow>
          if version = [] then False
          else (case new_SemVer version of
                  Inl _ \<Rightarrow> False
                | Inr v \<Rightarrow> testSet cs v))"

section \<open>The version registry (\<^verbatim>\<open>src/ts/versions/installations.ts\<close>)\<close>

text \<open>The nine installer classes the registry imports, as the values of the table.\<close>

datatype InstallationConstructor =
    Installation_1_46 | Installation_1_47 | Installation_1_50
  | Installation_1_51 | Installation_1_62 | Installation_1_74
  | Installation_1_80 | Installation_1_81 | Installation_1_90

text \<open>
  The object literal \<^verbatim>\<open>versions\<close>, as the list of its properties in the order they are
  written: \<^verbatim>\<open>Object.keys\<close> lists string keys that are no array index in creation order.
\<close>

definition versions :: "(string \<times> InstallationConstructor) list" where
  "versions =
     [
      (''v1.46.x'', Installation_1_46), (''v1.47.x'', Installation_1_47),
      (''v1.48.x'', Installation_1_47), (''v1.49.x'', Installation_1_47),
      (''v1.50.x'', Installation_1_50), (''v1.51.x'', Installation_1_51),
      (''v1.52.x'', Installation_1_51), (''v1.53.x'', Installation_1_51),
      (''v1.54.x'', Installation_1_51), (''v1.55.x'', Installation_1_51),
      (''v1.56.x'', Installation_1_51), (''v1.57.x'', Installation_1_51),
      (''v1.58.x'', Installation_1_51), (''v1.59.x'', Installation_1_51),
      (''v1.60.x'', Installation_1_51), (''v1.61.x'', Installation_1_51),
      (''v1.62.x'', Installation_1_62), (''v1.63.x'', Installation_1_62),
      (''v1.64.x'', Installation_1_62), (''v1.65.x'', Installation_1_62),
      (''v1.66.x'', Installation_1_62), (''v1.67.x'', Installation_1_62),
      (''v1.68.x'', Installation_1_62), (''v1.69.x'', Installation_1_62),
      (''v1.70.x'', Installation_1_62), (''v1.71.x'', Installation_1_62),
      (''v1.72.x'', Installation_1_62), (''v1.73.x'', Installation_1_62),
      (''v1.74.x'', Installation_1_74), (''v1.75.x'', Installation_1_74),
      (''v1.76.x'', Installation_1_74), (''v1.77.x'', Installation_1_74),
      (''v1.78.x'', Installation_1_74), (''v1.79.x'', Installation_1_74),
      (''v1.80.x'', Installation_1_80), (''v1.81.x'', Installation_1_81),
      (''v1.82.x'', Installation_1_81), (''v1.83.x'', Installation_1_81),
      (''v1.84.x'', Installation_1_81), (''v1.85.x'', Installation_1_81),
      (''v1.86.x'', Installation_1_81), (''v1.87.x'', Installation_1_81),
      (''v1.88.x'', Installation_1_81), (''v1.89.x'', Installation_1_81),
      (''v1.90.x'', Installation_1_90), (''v1.91.x'', Installation_1_90),
      (''v1.92.x'', Installation_1_90), (''v1.93.x'', Installation_1_90),
      (''v1.94.x'', Installation_1_90), (''v1.95.x'', Installation_1_90)
     ]"

definition Object_keys :: "(string \<times> 'a) list \<Rightarrow> string list" where
  "Object_keys obj = map fst obj"

text \<open>
  \<^verbatim>\<open>class VersionNotFound extends Exception\<close>: the constructor hands the message
  \<^verbatim>\<open>`Version ${version} not found`\<close> to the base class.
\<close>

definition new_VersionNotFound :: "string \<Rightarrow> exception" where
  "new_VersionNotFound version = VersionNotFound (''Version '' @ version @ '' not found'')"

text \<open>
  \<^verbatim>\<open>getInstallation\<close>: \<^verbatim>\<open>find\<close> gives the first key the version satisfies, or
  \<^verbatim>\<open>undefined\<close> (here \<open>None\<close>), which \<^verbatim>\<open>has\<close> rejects. The result of the property read
  \<^verbatim>\<open>versions[matchingVersion]\<close> is an option, \<open>None\<close> standing for \<^verbatim>\<open>undefined\<close>.
\<close>

definition getInstallation :: "string \<Rightarrow> exception + InstallationConstructor option" where
  "getInstallation version =
     (case find (\<lambda>v. satisfies version v) (Object_keys versions) of
        None \<Rightarrow> Inl (new_VersionNotFound version)
      | Some matchingVersion \<Rightarrow> Inr (map_of versions matchingVersion))"

subsection \<open>Persisted state and desired values\<close>

text \<open>
  A persisted state as it is read back: the version tag and the \<^verbatim>\<open>apiserver\<close> sub-object
  may be missing (\<open>None\<close>); everything else the state and its \<^verbatim>\<open>apiserver\<close> entry
  hold is the extension of the respective record.
  \<^verbatim>\<open>VersionedValues\<close> is the operator's input with its own version tag.
\<close>

record ApiserverState =
  version :: string

record 'b VersionedState =
  version :: "string option"
  apiserver :: "'b ApiserverState_scheme option"

record VersionedValues =
  version :: string

text \<open>
  A missing value in a template literal prints as \<^verbatim>\<open>undefined\<close>; \<^verbatim>\<open>Range.test\<close> of the
  semver package answers false for a missing version.
\<close>

definition templateString :: "string option \<Rightarrow> string" where
  "templateString v = (case v of None \<Rightarrow> ''undefined'' | Some s \<Rightarrow> s)"

definition convertStateValues ::
  "('b, 'a) VersionedState_scheme \<Rightarrow> string \<Rightarrow> exception + ('b, 'a) VersionedState_scheme" where
  "convertStateValues state targetVersion =
     (case find (\<lambda>v. case VersionedState.version state of
                         None \<Rightarrow> False
                       | Some sv \<Rightarrow> satisfies sv v) (Object_keys versions) of
        None \<Rightarrow> Inl (new_VersionNotFound (templateString (VersionedState.version state)))
      | Some matchingVersion \<Rightarrow> Inr state)"

text \<open>The minor versions of the declared bands, in the order of the table.\<close>

definition minors :: "nat list" where
  "minors = [46..<96]"

section \<open>The v1.80 installer (\<^verbatim>\<open>src/unnamed/part_000\<close>)\<close>

text \<open>
  The file is the module \<^verbatim>\<open>./v1.80/installation\<close> of the registry.
  The installer imports \<^verbatim>\<open>emptyState\<close>, \<^verbatim>\<open>isStateValues\<close> and \<^verbatim>\<open>validateState\<close> from
  \<^verbatim>\<open>../v1.46/Values\<close> and extends the v1.74 installer; neither file is among the sources.
  The three imported functions are the fields of a record the model of \<^verbatim>\<open>install\<close> takes,
  and \<^verbatim>\<open>super.install\<close> is a parameter too, so what is proved of \<^verbatim>\<open>install\<close> holds
  whatever they are.
\<close>

record ('b, 'a) Values_1_46 =
  emptyState :: "string \<Rightarrow> ('b, 'a) VersionedState_scheme"
  isStateValues :: "('b, 'a) VersionedState_scheme \<Rightarrow> bool"
  validateState :: "('b, 'a) VersionedState_scheme \<Rightarrow> exception"

definition VERSION :: string where
  "VERSION = ''1.80''"

text \<open>\<^verbatim>\<open>const targetVirtualClusterVersion = new SemVer('v1.23.16')\<close>, with the constructor's outcome.\<close>

definition targetVirtualClusterVersion :: "exception + SemVer" where
  "targetVirtualClusterVersion = new_SemVer ''v1.23.16''"

text \<open>
  \<^verbatim>\<open>Installation.install\<close>. A \<^verbatim>\<open>throw\<close> is \<open>Inl\<close>. Reading \<^verbatim>\<open>.version\<close> of a missing
  \<^verbatim>\<open>apiserver\<close> is JavaScript's \<^verbatim>\<open>TypeError\<close>; the message is the one of V8 (Node.js 16
  and later), other engines word it differently, and nothing below depends on it.
  The assignment to \<^verbatim>\<open>stateValues.apiserver.version\<close> changes the object that is then handed
  to \<^verbatim>\<open>super.install\<close>, here the state passed on.
\<close>

definition install ::
  "('b, 'a) Values_1_46
     \<Rightarrow> ('f \<Rightarrow> ('b, 'a) VersionedState_scheme \<Rightarrow> 'c VersionedValues_scheme \<Rightarrow> exception + 'r)
     \<Rightarrow> 'f \<Rightarrow> ('b, 'a) VersionedState_scheme option \<Rightarrow> 'c VersionedValues_scheme
     \<Rightarrow> exception + 'r" where
  "install Values super_install flow stateValues inputValues =
     (case (case stateValues of
              None \<Rightarrow> Inr (emptyState Values (VersionedValues.version inputValues))
            | Some s \<Rightarrow> if \<not> isStateValues Values s then Inl (validateState Values s) else Inr s) of
        Inl e \<Rightarrow> Inl e
      | Inr s \<Rightarrow>
          (case apiserver s of
             None \<Rightarrow> Inl (TypeError ''Cannot read properties of undefined (reading 'version')'')
           | Some a \<Rightarrow>
               (case new_SemVer (ApiserverState.version a) of
                  Inl e \<Rightarrow> Inl e
                | Inr v \<Rightarrow>
                    (case targetVirtualClusterVersion of
                       Inl e \<Rightarrow> Inl e
                     | Inr target \<Rightarrow>
                         super_install flow
                           (if compareMain v target = - 1
                            then s\<lparr> apiserver := Some (a\<lparr> ApiserverState.version := raw target \<rparr>) \<rparr>
                            else s)
                           inputValues))))"


text \<open>
  Modelled from the spec: the functions of \<^verbatim>\<open>versions/v1.46/Values\<close>, which is not among
  the sources. The spec's state validator returns, for an absent prior state, "a minimal
  empty state tagged with the target version", and for a present one checks "the required
  structural fields for a versioned state (non-empty version tag, expected sub-objects
  present)", failing with "a \<^verbatim>\<open>MalformedStateError\<close> carrying a description of what is
  missing". The one sub-object the sources read is \<^verbatim>\<open>apiserver\<close>. What the empty state
  holds besides its tag the spec does not say: it is the argument \<open>blank\<close>.
\<close>

definition missingFields :: "('b, 'a) VersionedState_scheme \<Rightarrow> string list" where
  "missingFields s =
     (if VersionedState.version s = None \<or> VersionedState.version s = Some [] then [''version''] else [])
     @ (if apiserver s = None then [''apiserver''] else [])"

text \<open>
  Modelled from the spec: \<^verbatim>\<open>emptyState\<close>, \<^verbatim>\<open>isStateValues\<close> and \<^verbatim>\<open>validateState\<close> as the
  spec's state validator describes them (see above), over \<open>missingFields\<close>.
\<close>

definition specValues :: "('b, 'a) VersionedState_scheme \<Rightarrow> ('b, 'a) Values_1_46" where
  "specValues blank =
     \<lparr> emptyState = (\<lambda>version. blank\<lparr> VersionedState.version := Some version \<rparr>),
       isStateValues = (\<lambda>s. missingFields s = []),
       validateState = (\<lambda>s. MalformedStateError (missingFields s)) \<rparr>"

section \<open>The control-plane deployment task (\<^verbatim>\<open>src/unnamed/part_001\<close>)\<close>

text \<open>
  \<^verbatim>\<open>Gardener.do\<close> is a sequence of awaited calls. Each call of a collaborator is an entry
  of a trace: the call and the exception it threw, if any. What the collaborator answers
  (a value, or a rejection that \<^verbatim>\<open>await\<close> rethrows) is given by the record \<open>Externals\<close>,
  and may depend on the entries so far. The entry of \<^verbatim>\<open>helm.createOrUpdate\<close> also names
  the chart whose release is applied.
  The values object is modelled by the four \<^verbatim>\<open>kubeconfig\<close> entries that \<^verbatim>\<open>do\<close> assigns;
  \<^verbatim>\<open>getValues\<close>, which builds it with \<^verbatim>\<open>deepMergeObject\<close> (not among the sources), is a
  field of \<open>Externals\<close>, and so are \<^verbatim>\<open>Chart.getRelease\<close>, the constant
  \<^verbatim>\<open>GardenerNamespace\<close> and the functions imported from \<^verbatim>\<open>../utils/kubernetes\<close> and
  \<^verbatim>\<open>./VirtualCluster\<close>.
\<close>

record KubeClient =
  getKubeConfig :: string

record ComponentValues =
  kubeconfig :: string

record GlobalValues =
  apiserver :: ComponentValues
  controller :: ComponentValues
  admission :: ComponentValues
  scheduler :: ComponentValues

record GardenerValues =
  global :: GlobalValues

record Chart =
  name :: string
  renderValues :: GardenerValues

datatype 'rel event =
    LogInfo string
  | WaitUntilVirtualClusterIsReady
  | GetRelease Chart
  | HelmCreateOrUpdate Chart 'rel "string option"
  | GetKubeConfigForServiceAccount KubeClient string string

type_synonym 'rel entry = "'rel event \<times> exception option"

record ('gv, 'rel) Externals =
  GardenerNamespace :: string
  waitUntilVirtualClusterIsReady :: "'gv \<Rightarrow> 'rel entry list \<Rightarrow> exception + KubeClient"
  getValues :: "'gv \<Rightarrow> exception + GardenerValues"
  getRelease :: "Chart \<Rightarrow> 'gv \<Rightarrow> 'rel entry list \<Rightarrow> exception + 'rel"
  createOrUpdate :: "'rel \<Rightarrow> string option \<Rightarrow> 'rel entry list \<Rightarrow> exception + unit"
  getKubeConfigForServiceAccount ::
    "KubeClient \<Rightarrow> string \<Rightarrow> string \<Rightarrow> 'rel entry list \<Rightarrow> exception + string"

text \<open>The class's fields; \<^verbatim>\<open>values\<close> is written \<open>values'\<close>, and \<^verbatim>\<open>helm\<close> is the \<open>createOrUpdate\<close> above.\<close>

record 'gv Gardener =
  hostClient :: KubeClient
  values' :: 'gv
  dryRun :: bool
  virtualClient :: "KubeClient option"

definition GardenerVersion :: string where
  "GardenerVersion = ''v1.41.1''"

text \<open>The constructor: \<^verbatim>\<open>virtualClient\<close> is declared without an initialiser.\<close>

definition new_Gardener :: "KubeClient \<Rightarrow> 'gv \<Rightarrow> bool \<Rightarrow> 'gv Gardener" where
  "new_Gardener hc vals dr =
     \<lparr> hostClient = hc, values' = vals, dryRun = dr, virtualClient = None \<rparr>"

definition ApplicationChart :: "GardenerValues \<Rightarrow> Chart" where
  "ApplicationChart vals = \<lparr> name = ''gardener-application'', renderValues = vals \<rparr>"

definition RuntimeChart :: "GardenerValues \<Rightarrow> Chart" where
  "RuntimeChart vals = \<lparr> name = ''gardener-runtime'', renderValues = vals \<rparr>"

text \<open>
  Sequencing of awaited steps over the task object and the trace: a step that throws ends
  the run with the state reached.
\<close>

definition andThen ::
  "('s \<Rightarrow> (exception + 'a) \<times> 's) \<Rightarrow> ('a \<Rightarrow> 's \<Rightarrow> (exception + 'b) \<times> 's)
     \<Rightarrow> 's \<Rightarrow> (exception + 'b) \<times> 's" where
  "andThen m f s = (case m s of (Inl e, s') \<Rightarrow> (Inl e, s') | (Inr a, s') \<Rightarrow> f a s')"

text \<open>
  A call of a collaborator: its answer is the one for the trace before the call, and the
  call is appended to the trace with the exception it threw.
\<close>

definition call ::
  "'rel event \<Rightarrow> ('rel entry list \<Rightarrow> exception + 'a) \<Rightarrow> 't \<times> 'rel entry list
     \<Rightarrow> (exception + 'a) \<times> 't \<times> 'rel entry list" where
  "call ev answer s =
     (answer (snd s), fst s,
      snd s @ [(ev, case answer (snd s) of Inl e \<Rightarrow> Some e | Inr _ \<Rightarrow> None)])"

text \<open>The private method \<^verbatim>\<open>getKubeConfigForServiceAccount(name)\<close>.\<close>

definition Gardener_getKubeConfigForServiceAccount ::
  "('gv, 'rel) Externals \<Rightarrow> string \<Rightarrow> 'gv Gardener \<times> 'rel entry list
     \<Rightarrow> (exception + string) \<times> 'gv Gardener \<times> 'rel entry list" where
  "Gardener_getKubeConfigForServiceAccount ext nm s =
     (case virtualClient (fst s) of
        None \<Rightarrow> (Inr (''dumy-'' @ nm), s)
      | Some c \<Rightarrow>
          call (GetKubeConfigForServiceAccount c (GardenerNamespace ext) nm)
               (getKubeConfigForServiceAccount ext c (GardenerNamespace ext) nm) s)"

text \<open>
  \<^verbatim>\<open>Gardener.do\<close>, statement by statement. The four assignments to
  \<^verbatim>\<open>gardenerValues.global\<close> change the object the application chart was built from; that
  chart is not read again after them, so here it keeps the values it was built with.
\<close>

definition Gardener_do ::
  "('gv, 'rel) Externals \<Rightarrow> 'gv Gardener \<times> 'rel entry list
     \<Rightarrow> (exception + unit) \<times> 'gv Gardener \<times> 'rel entry list" where
  "Gardener_do ext =
     andThen (call (LogInfo (''Installing Gardener version '' @ GardenerVersion)) (\<lambda>_. Inr ())) (\<lambda>_.
     andThen (\<lambda>s.
        if \<not> dryRun (fst s) then
          (case call WaitUntilVirtualClusterIsReady
                  (waitUntilVirtualClusterIsReady ext (values' (fst s))) s of
             (Inl e, s') \<Rightarrow> (Inl e, s')
           | (Inr c, s') \<Rightarrow> (Inr (), (fst s')\<lparr> virtualClient := Some c \<rparr>, snd s'))
        else (Inr (), s)) (\<lambda>_.
     andThen (call (LogInfo ''Install Gardener Controlplane'') (\<lambda>_. Inr ())) (\<lambda>_.
     andThen (\<lambda>s. (getValues ext (values' (fst s)), s)) (\<lambda>gardenerValues.
     let applicationHelmChart = ApplicationChart gardenerValues in
     andThen (\<lambda>s. call (GetRelease applicationHelmChart)
                      (getRelease ext applicationHelmChart (values' (fst s))) s) (\<lambda>release.
     andThen (\<lambda>s. call (HelmCreateOrUpdate applicationHelmChart release
                            (map_option getKubeConfig (virtualClient (fst s))))
                      (createOrUpdate ext release
                            (map_option getKubeConfig (virtualClient (fst s)))) s) (\<lambda>_.
     andThen (Gardener_getKubeConfigForServiceAccount ext ''gardener-apiserver'') (\<lambda>k.
     let gardenerValues = gardenerValues\<lparr> global := (global gardenerValues)
           \<lparr> apiserver := (apiserver (global gardenerValues))\<lparr> kubeconfig := k \<rparr> \<rparr> \<rparr> in
     andThen (Gardener_getKubeConfigForServiceAccount ext ''gardener-controller-manager'') (\<lambda>k.
     let gardenerValues = gardenerValues\<lparr> global := (global gardenerValues)
           \<lparr> controller := (controller (global gardenerValues))\<lparr> kubeconfig := k \<rparr> \<rparr> \<rparr> in
     andThen (Gardener_getKubeConfigForServiceAccount ext ''gardener-scheduler'') (\<lambda>k.
     let gardenerValues = gardenerValues\<lparr> global := (global gardenerValues)
           \<lparr> scheduler := (scheduler (global gardenerValues))\<lparr> kubeconfig := k \<rparr> \<rparr> \<rparr> in
     andThen (Gardener_getKubeConfigForServiceAccount ext ''gardener-admission-controller'') (\<lambda>k.
     let gardenerValues = gardenerValues\<lparr> global := (global gardenerValues)
           \<lparr> admission := (admission (global gardenerValues))\<lparr> kubeconfig := k \<rparr> \<rparr> \<rparr>;
         runtimeHelmChart = RuntimeChart gardenerValues in
     andThen (\<lambda>s. call (GetRelease runtimeHelmChart)
                      (getRelease ext runtimeHelmChart (values' (fst s))) s) (\<lambda>release.
     call (HelmCreateOrUpdate runtimeHelmChart release None)
          (createOrUpdate ext release None))))))))))))"

subsection \<open>Reading a trace\<close>

text \<open>
  The kind of a call, without its arguments other than the chart or the service account it
  is for, and the calls of one run in the order \<^verbatim>\<open>do\<close> writes them: the readiness wait
  only when the task is not a dry run, the four credential requests only when the task
  holds a client of the virtual cluster.
\<close>

datatype label =
    Log
  | Wait
  | Release string
  | Apply string
  | Mint string

fun labelOf :: "'rel event \<Rightarrow> label" where
  "labelOf (LogInfo m) = Log"
| "labelOf WaitUntilVirtualClusterIsReady = Wait"
| "labelOf (GetRelease c) = Release (name c)"
| "labelOf (HelmCreateOrUpdate c r k) = Apply (name c)"
| "labelOf (GetKubeConfigForServiceAccount c ns n) = Mint n"

definition programOrder :: "bool \<Rightarrow> bool \<Rightarrow> label list" where
  "programOrder waits mints =
     [Log] @ (if waits then [Wait] else [])
     @ [Log, Release ''gardener-application'', Apply ''gardener-application'']
     @ (if mints then [Mint ''gardener-apiserver'', Mint ''gardener-controller-manager'',
                       Mint ''gardener-scheduler'', Mint ''gardener-admission-controller'']
        else [])
     @ [Release ''gardener-runtime'', Apply ''gardener-runtime'']"

definition isMint :: "label \<Rightarrow> bool" where
  "isMint l = (case l of Mint n \<Rightarrow> True | _ \<Rightarrow> False)"

text \<open>\<open>neverBefore P Q\<close>: no \<open>Q\<close> occurs until a \<open>P\<close> has occurred.\<close>

fun neverBefore :: "('a \<Rightarrow> bool) \<Rightarrow> ('a \<Rightarrow> bool) \<Rightarrow> 'a list \<Rightarrow> bool" where
  "neverBefore P Q [] = True"
| "neverBefore P Q (x # xs) = (if P x then True else \<not> Q x \<and> neverBefore P Q xs)"

text \<open>\<open>neverAfter P Q\<close>: no \<open>Q\<close> occurs once a \<open>P\<close> has occurred.\<close>

fun neverAfter :: "('a \<Rightarrow> bool) \<Rightarrow> ('a \<Rightarrow> bool) \<Rightarrow> 'a list \<Rightarrow> bool" where
  "neverAfter P Q [] = True"
| "neverAfter P Q (x # xs) = (if P x then list_all (\<lambda>y. \<not> Q y) xs else neverAfter P Q xs)"

text \<open>The kinds of the calls of a trace.\<close>

definition labels :: "'rel entry list \<Rightarrow> label list" where
  "labels new = map (\<lambda>x. labelOf (fst x)) new"

subsection \<open>A rule for sequences of calls\<close>

text \<open>
  \<open>shape X res new L\<close> describes the entries \<open>new\<close> a computation added to the trace when it
  ended with \<open>res\<close>: their kinds are an initial part of \<open>L\<close>, and all of \<open>L\<close> when it
  returned; every call satisfies \<open>X\<close>; only the last call can have thrown, and then it
  threw the exception the computation ended with. \<open>behaves P Inv X m L Q\<close> says that \<open>m\<close>,
  started on a task that satisfies \<open>P\<close>, adds entries of that shape, leaves a task that
  satisfies \<open>Inv\<close> and, when it returns \<open>a\<close>, one that satisfies \<open>Q a\<close>.
\<close>

definition shape ::
  "('rel event \<Rightarrow> bool) \<Rightarrow> (exception + 'a) \<Rightarrow> 'rel entry list \<Rightarrow> label list \<Rightarrow> bool" where
  "shape X res new L \<longleftrightarrow>
     prefix (labels new) L
     \<and> list_all (\<lambda>x. X (fst x)) new
     \<and> list_all (\<lambda>x. snd x = None) (butlast new)
     \<and> (case res of
          Inr a \<Rightarrow> labels new = L \<and> list_all (\<lambda>x. snd x = None) new
        | Inl e \<Rightarrow> list_all (\<lambda>x. snd x = None \<or> snd x = Some e) new)"

definition behaves ::
  "('t \<Rightarrow> bool) \<Rightarrow> ('t \<Rightarrow> bool) \<Rightarrow> ('rel event \<Rightarrow> bool)
     \<Rightarrow> ('t \<times> 'rel entry list \<Rightarrow> (exception + 'a) \<times> 't \<times> 'rel entry list)
     \<Rightarrow> label list \<Rightarrow> ('a \<Rightarrow> 't \<Rightarrow> bool) \<Rightarrow> bool" where
  "behaves P Inv X m L Q \<longleftrightarrow>
     (\<forall>t tr. P t \<longrightarrow>
        (\<exists>new. snd (snd (m (t, tr))) = tr @ new
           \<and> shape X (fst (m (t, tr))) new L
           \<and> Inv (fst (snd (m (t, tr))))
           \<and> (\<forall>a. fst (m (t, tr)) = Inr a \<longrightarrow> Q a (fst (snd (m (t, tr)))))))"

subsection \<open>Dry runs\<close>

text \<open>
  The values of a chart hold the placeholder credentials; and what a call of a dry run may
  be: no readiness wait, no credential request, no kubeconfig of the virtual cluster
  handed to Helm, the runtime chart built with the placeholders.
\<close>

definition placeholders :: "GardenerValues \<Rightarrow> bool" where
  "placeholders v \<longleftrightarrow>
     kubeconfig (apiserver (global v)) = ''dumy-gardener-apiserver''
     \<and> kubeconfig (controller (global v)) = ''dumy-gardener-controller-manager''
     \<and> kubeconfig (scheduler (global v)) = ''dumy-gardener-scheduler''
     \<and> kubeconfig (admission (global v)) = ''dumy-gardener-admission-controller''"

fun dryEvent :: "'rel event \<Rightarrow> bool" where
  "dryEvent (LogInfo m) = True"
| "dryEvent WaitUntilVirtualClusterIsReady = False"
| "dryEvent (GetRelease c) = (name c = ''gardener-runtime'' \<longrightarrow> placeholders (renderValues c))"
| "dryEvent (HelmCreateOrUpdate c r k) = (k = None)"
| "dryEvent (GetKubeConfigForServiceAccount c ns n) = False"

subsection \<open>Collaborators for the scenarios\<close>

text \<open>
  Collaborators that always answer, but for \<^verbatim>\<open>helm.createOrUpdate\<close>, which rejects every
  release when \<open>applies\<close> is false; a release is named by its chart.
\<close>

definition exampleValues :: GardenerValues where
  "exampleValues =
     \<lparr> global = \<lparr> apiserver = \<lparr> kubeconfig = ''dummy'' \<rparr>,
                  controller = \<lparr> kubeconfig = ''dummy'' \<rparr>,
                  admission = \<lparr> kubeconfig = ''dummy'' \<rparr>,
                  scheduler = \<lparr> kubeconfig = ''dummy'' \<rparr> \<rparr> \<rparr>"

definition exampleExternals :: "bool \<Rightarrow> (unit, string) Externals" where
  "exampleExternals applies =
     \<lparr> GardenerNamespace = ''garden'',
       waitUntilVirtualClusterIsReady = (\<lambda>v h. Inr \<lparr> getKubeConfig = ''virtual'' \<rparr>),
       getValues = (\<lambda>v. Inr exampleValues),
       getRelease = (\<lambda>c v h. Inr (name c)),
       createOrUpdate = (\<lambda>r k h. if applies then Inr ()
                                   else Inl (InfrastructureError ''apply failed'')),
       getKubeConfigForServiceAccount = (\<lambda>c ns n h. Inr (''kubeconfig-'' @ n)) \<rparr>"

section \<open>Facts about version strings and the registry\<close>

lemmas parse_defs = new_SemVer_def matchFULL_def matchTail_def trim_def isSpace_def isDigit_def
  isLetterDashNumber_def numericIdentifier_def prereleaseIdentifier_def buildIdentifier_def
  toNumber_def digitValue_def toIdentifier_def MAX_LENGTH_def MAX_SAFE_INTEGER_def

lemma comparePreLoop_Num0: "pre \<noteq> [] \<Longrightarrow> 0 \<le> comparePreLoop pre [Num 0]"
proof (cases pre)
  case Nil
  assume "pre \<noteq> []"
  with Nil show ?thesis by simp
next
  case (Cons a as)
  show ?thesis
  proof (cases a)
    case (Num n)
    with Cons show ?thesis by (cases as) (simp_all add: compareNumbers_def)
  next
    case (Str x)
    with Cons show ?thesis by simp
  qed
qed

lemma testSet_xRange:
  "testSet (xRange M m) v \<longleftrightarrow> (major v = M \<and> minor v = m \<and> prerelease v = [])"
proof (cases "prerelease v = []")
  case True
  then show ?thesis
    by (auto simp: testSet_def xRange_def Comparator_test_def cmp_def compare_def comparePre_def
        mkSemVer_def compareMain_def compareNumbers_def split: if_splits)
next
  case False
  have "\<not> testSet (xRange M m) v"
  proof
    assume t: "testSet (xRange M m) v"
    from t False have eq: "major v = M" "minor v = m + 1" "patch v = 0"
      by (auto simp: testSet_def xRange_def mkSemVer_def split: if_splits)
    from t have "compare v (mkSemVer M (m + 1) 0 [Num 0]) < 0"
      by (auto simp: testSet_def xRange_def Comparator_test_def cmp_def split: if_splits)
    moreover from eq have "compareMain v (mkSemVer M (m + 1) 0 [Num 0]) = 0"
      by (simp add: compareMain_def compareNumbers_def mkSemVer_def)
    ultimately have "comparePreLoop (prerelease v) [Num 0] < 0"
      using False by (simp add: compare_def comparePre_def mkSemVer_def)
    with comparePreLoop_Num0 [OF False] show False by simp
  qed
  with False show ?thesis by simp
qed

lemma satisfies_xRange:
  assumes "parseRange k = Some (xRange M m)"
  shows "satisfies V k \<longleftrightarrow>
    (\<exists>sv. new_SemVer V = Inr sv \<and> major sv = M \<and> minor sv = m \<and> prerelease sv = [])"
proof (cases "V = []")
  case True
  then have "new_SemVer V = Inl (TypeError ''Invalid Version: '')"
    by (simp add: parse_defs)
  with True assms show ?thesis by (simp add: satisfies_def)
next
  case False
  with assms show ?thesis
    by (auto simp: satisfies_def testSet_xRange split: sum.splits)
qed

lemma keys_parse: "map parseRange (Object_keys versions) = map (\<lambda>n. Some (xRange 1 n)) minors"
  by (simp add: versions_def Object_keys_def minors_def parseRange_def trim_def isSpace_def
      isDigit_def numericIdentifier_def isX_def toNumber_def digitValue_def)

lemma distinct_minors: "distinct minors"
  by (simp add: minors_def)

lemma distinct_keys: "distinct (Object_keys versions)"
  by (simp add: versions_def Object_keys_def)

lemma length_versions: "length versions = 50" "length minors = 50"
  by (simp_all add: versions_def minors_def)

lemma key_parse:
  assumes "i < length versions"
  shows "parseRange (fst (versions ! i)) = Some (xRange 1 (minors ! i))"
proof -
  from assms have i: "i < length (Object_keys versions)" "i < length minors"
    by (simp_all add: Object_keys_def length_versions)
  have "map parseRange (Object_keys versions) ! i = map (\<lambda>n. Some (xRange 1 n)) minors ! i"
    by (simp only: keys_parse)
  with i assms show ?thesis
    by (simp add: Object_keys_def)
qed

lemma satisfies_key:
  assumes "i < length versions"
  shows "satisfies V (fst (versions ! i)) \<longleftrightarrow>
    (\<exists>sv. new_SemVer V = Inr sv \<and> major sv = 1 \<and> minor sv = minors ! i \<and> prerelease sv = [])"
  by (rule satisfies_xRange [OF key_parse [OF assms]])

text \<open>\<^verbatim>\<open>find\<close> over the keys of an object, then the property read.\<close>

lemma find_keys_None:
  "find P (map fst xs) = None \<longleftrightarrow> (\<forall>i<length xs. \<not> P (fst (xs ! i)))"
proof -
  have "(\<forall>x\<in>set xs. \<not> P (fst x)) \<longleftrightarrow> (\<forall>i<length xs. \<not> P (fst (xs ! i)))"
    by (metis in_set_conv_nth)
  then show ?thesis by (simp add: find_None_iff)
qed

lemma find_keys_Some:
  "find P (map fst xs) = Some k \<longleftrightarrow>
     (\<exists>i<length xs. P (fst (xs ! i)) \<and> k = fst (xs ! i) \<and> (\<forall>j<i. \<not> P (fst (xs ! j))))"
  by (auto simp: find_Some_iff)

lemma map_of_nth:
  "distinct (map fst xs) \<Longrightarrow> i < length xs \<Longrightarrow> map_of xs (fst (xs ! i)) = Some (snd (xs ! i))"
  by (simp add: map_of_eq_Some_iff)

lemma getInstallation_None:
  assumes "\<forall>i<length versions. \<not> satisfies V (fst (versions ! i))"
  shows "getInstallation V = Inl (new_VersionNotFound V)"
proof -
  from assms have "find (satisfies V) (map fst versions) = None"
    by (simp only: find_keys_None) 
  then show ?thesis by (simp add: getInstallation_def Object_keys_def)
qed

lemma getInstallation_Some:
  assumes "i < length versions" "satisfies V (fst (versions ! i))"
    "\<forall>j<i. \<not> satisfies V (fst (versions ! j))"
  shows "getInstallation V = Inr (Some (snd (versions ! i)))"
proof -
  have d: "distinct (map fst versions)"
    using distinct_keys by (simp add: Object_keys_def)
  from assms have "find (satisfies V) (map fst versions) = Some (fst (versions ! i))"
    by (subst find_keys_Some) blast
  then show ?thesis
    using map_of_nth [OF d assms(1)] by (simp add: getInstallation_def Object_keys_def)
qed

lemma first_match_cases:
  obtains (none) "\<forall>i<length (xs :: 'a list). \<not> P (xs ! i)"
  | (first) i where "i < length xs" "P (xs ! i)" "\<forall>j<i. \<not> P (xs ! j)"
proof (cases "\<exists>i<length xs. P (xs ! i)")
  case False
  then show ?thesis using none by blast
next
  case True
  define i where "i = (LEAST i. i < length xs \<and> P (xs ! i))"
  from True have a: "i < length xs \<and> P (xs ! i)"
    unfolding i_def by (rule_tac LeastI_ex) 
  have "\<forall>j<i. \<not> P (xs ! j)"
  proof (intro allI impI notI)
    fix j assume "j < i" "P (xs ! j)"
    with a have "j < length xs \<and> P (xs ! j)" by simp
    then have "i \<le> j" unfolding i_def by (rule Least_le)
    with \<open>j < i\<close> show False by simp
  qed
  with a show ?thesis using first by blast
qed

lemma getInstallation_Inr_iff:
  "getInstallation V = Inr r \<longleftrightarrow>
     (\<exists>i<length versions. satisfies V (fst (versions ! i))
        \<and> (\<forall>j<i. \<not> satisfies V (fst (versions ! j)))
        \<and> r = Some (snd (versions ! i)))"
proof (cases rule: first_match_cases [of versions "\<lambda>p. satisfies V (fst p)"])
  case none
  with getInstallation_None [of V] show ?thesis by auto
next
  case (first i)
  note r = getInstallation_Some [OF first]
  show ?thesis
  proof
    assume "getInstallation V = Inr r"
    with r first show "\<exists>i<length versions. satisfies V (fst (versions ! i))
        \<and> (\<forall>j<i. \<not> satisfies V (fst (versions ! j))) \<and> r = Some (snd (versions ! i))"
      by auto
  next
    assume "\<exists>i<length versions. satisfies V (fst (versions ! i))
        \<and> (\<forall>j<i. \<not> satisfies V (fst (versions ! j))) \<and> r = Some (snd (versions ! i))"
    then obtain i' where i': "i' < length versions" "satisfies V (fst (versions ! i'))"
        "\<forall>j<i'. \<not> satisfies V (fst (versions ! j))" "r = Some (snd (versions ! i'))"
      by auto
    have "i' = i"
    proof (rule ccontr)
      assume "i' \<noteq> i"
      then consider "i' < i" | "i < i'" by linarith
      then show False using first i' by cases auto
    qed
    with r i' show "getInstallation V = Inr r" by simp
  qed
qed

lemma getInstallation_Inl_iff:
  "getInstallation V = Inl e \<longleftrightarrow>
     ((\<forall>i<length versions. \<not> satisfies V (fst (versions ! i))) \<and> e = new_VersionNotFound V)"
proof (cases rule: first_match_cases [of versions "\<lambda>p. satisfies V (fst p)"])
  case none
  with getInstallation_None [of V] show ?thesis by auto
next
  case (first i)
  with getInstallation_Some [OF first] show ?thesis by auto
qed

lemmas range_defs = parseRange_def isX_def xRange_def mkSemVer_def satisfies_def testSet_def
  Comparator_test_def cmp_def compare_def compareMain_def comparePre_def compareNumbers_def

lemma minors_nth:
  assumes "i < 50"
  shows "minors ! i = 46 + i"
proof -
  from assms have "46 + i < 96" by simp
  then have "[46..<96] ! i = 46 + i" by (rule nth_upt)
  then show ?thesis by (simp only: minors_def)
qed

lemma hd_last_keys:
  "hd (Object_keys versions) = ''v1.46.x''" "last (Object_keys versions) = ''v1.95.x''"
  by (simp_all add: versions_def Object_keys_def)

lemma eval_1_74_3: "getInstallation ''1.74.3'' = Inr (Some Installation_1_74)"
  by (simp add: getInstallation_def Object_keys_def versions_def parse_defs range_defs)

lemma eval_1_96_0: "getInstallation ''1.96.0'' = Inl (VersionNotFound ''Version 1.96.0 not found'')"
  by (simp add: getInstallation_def Object_keys_def versions_def parse_defs range_defs
      new_VersionNotFound_def)

lemma inj_new_VersionNotFound: "new_VersionNotFound a = new_VersionNotFound b \<longleftrightarrow> a = b"
  by (simp add: new_VersionNotFound_def)

lemma in_band_iff:
  "(\<exists>k\<in>set (Object_keys versions). satisfies V k) \<longleftrightarrow>
   (\<exists>sv. new_SemVer V = Inr sv \<and> major sv = 1 \<and> 46 \<le> minor sv \<and> minor sv \<le> 95
        \<and> prerelease sv = [])"
proof
  assume "\<exists>k\<in>set (Object_keys versions). satisfies V k"
  then obtain i where i: "i < length versions" "satisfies V (fst (versions ! i))"
    by (auto simp: Object_keys_def in_set_conv_nth)
  then obtain sv where "new_SemVer V = Inr sv" "major sv = 1" "minor sv = minors ! i"
      "prerelease sv = []"
    by (auto simp: satisfies_key)
  moreover from i(1) have "minors ! i = 46 + i" "i < 50"
    by (simp_all add: minors_nth length_versions)
  ultimately show "\<exists>sv. new_SemVer V = Inr sv \<and> major sv = 1 \<and> 46 \<le> minor sv \<and> minor sv \<le> 95
        \<and> prerelease sv = []"
    by auto
next
  assume "\<exists>sv. new_SemVer V = Inr sv \<and> major sv = 1 \<and> 46 \<le> minor sv \<and> minor sv \<le> 95
        \<and> prerelease sv = []"
  then obtain sv where sv: "new_SemVer V = Inr sv" "major sv = 1" "46 \<le> minor sv"
      "minor sv \<le> 95" "prerelease sv = []"
    by auto
  define i where "i = minor sv - 46"
  from sv have i: "i < length versions" "minors ! i = minor sv"
    by (simp_all add: i_def length_versions minors_nth)
  with sv have "satisfies V (fst (versions ! i))"
    by (simp add: satisfies_key)
  moreover from i(1) have "fst (versions ! i) \<in> set (Object_keys versions)"
    by (simp add: Object_keys_def)
  ultimately show "\<exists>k\<in>set (Object_keys versions). satisfies V k" by blast
qed

text \<open>
  Claim C1. For every version string \<open>V\<close>, \<open>getInstallation V\<close> scans the entries in the
  order they are declared (the first key is \<^verbatim>\<open>v1.46.x\<close>, the last \<^verbatim>\<open>v1.95.x\<close>) and
  returns the constructor bound to the first key that \<open>V\<close> satisfies; it throws
  \<^verbatim>\<open>VersionNotFound\<close> for \<open>V\<close> exactly when no key is satisfied. The key at position \<open>i\<close>
  is satisfied by the strings that parse to a version \<open>1.(46 + i).p\<close> with no prerelease
  tag, whatever the patch number \<open>p\<close>; so \<^verbatim>\<open>v1.74.x\<close> matches every patch release of 1.74.
\<close>

theorem getInstallation_first_match:
  "(getInstallation V = Inr r \<longleftrightarrow>
      (\<exists>i<length versions. satisfies V (fst (versions ! i))
         \<and> (\<forall>j<i. \<not> satisfies V (fst (versions ! j)))
         \<and> r = Some (snd (versions ! i))))
   \<and> (getInstallation V = Inl e \<longleftrightarrow>
        ((\<forall>i<length versions. \<not> satisfies V (fst (versions ! i))) \<and> e = new_VersionNotFound V))
   \<and> hd (Object_keys versions) = ''v1.46.x'' \<and> last (Object_keys versions) = ''v1.95.x''
   \<and> (\<forall>i<length versions. satisfies V (fst (versions ! i)) \<longleftrightarrow>
        (\<exists>sv. new_SemVer V = Inr sv \<and> major sv = 1 \<and> minor sv = 46 + i \<and> prerelease sv = []))
   \<and> (satisfies V ''v1.74.x'' \<longleftrightarrow>
        (\<exists>sv. new_SemVer V = Inr sv \<and> major sv = 1 \<and> minor sv = 74 \<and> prerelease sv = []))"
proof (intro conjI)
  show "getInstallation V = Inr r \<longleftrightarrow>
      (\<exists>i<length versions. satisfies V (fst (versions ! i))
         \<and> (\<forall>j<i. \<not> satisfies V (fst (versions ! j)))
         \<and> r = Some (snd (versions ! i)))"
    by (rule getInstallation_Inr_iff)
  show "getInstallation V = Inl e \<longleftrightarrow>
        ((\<forall>i<length versions. \<not> satisfies V (fst (versions ! i))) \<and> e = new_VersionNotFound V)"
    by (rule getInstallation_Inl_iff)
  show "hd (Object_keys versions) = ''v1.46.x''" "last (Object_keys versions) = ''v1.95.x''"
    by (rule hd_last_keys)+
  show "\<forall>i<length versions. satisfies V (fst (versions ! i)) \<longleftrightarrow>
        (\<exists>sv. new_SemVer V = Inr sv \<and> major sv = 1 \<and> minor sv = 46 + i \<and> prerelease sv = [])"
  proof (intro allI impI)
    fix i assume i: "i < length versions"
    then have "minors ! i = 46 + i" by (simp add: minors_nth length_versions)
    with satisfies_key [OF i, of V] show "satisfies V (fst (versions ! i)) \<longleftrightarrow>
        (\<exists>sv. new_SemVer V = Inr sv \<and> major sv = 1 \<and> minor sv = 46 + i \<and> prerelease sv = [])"
      by simp
  qed
  have "parseRange ''v1.74.x'' = Some (xRange 1 74)"
    by (simp add: parseRange_def trim_def isSpace_def isDigit_def numericIdentifier_def isX_def
        toNumber_def digitValue_def)
  then show "satisfies V ''v1.74.x'' \<longleftrightarrow>
        (\<exists>sv. new_SemVer V = Inr sv \<and> major sv = 1 \<and> minor sv = 74 \<and> prerelease sv = [])"
    by (rule satisfies_xRange)
qed

theorem getInstallation_first_match_witness:
  "getInstallation ''1.74.3'' = Inr (Some Installation_1_74)
   \<and> (\<exists>i<length versions. satisfies ''1.74.3'' (fst (versions ! i))
         \<and> (\<forall>j<i. \<not> satisfies ''1.74.3'' (fst (versions ! j)))
         \<and> Some Installation_1_74 = Some (snd (versions ! i)))
   \<and> satisfies ''1.74.3'' ''v1.74.x''"
proof -
  have g: "getInstallation ''1.74.3'' = Inr (Some Installation_1_74)"
    by (rule eval_1_74_3)
  have p: "new_SemVer ''1.74.3'' = Inr \<lparr> raw = ''1.74.3'', major = 1, minor = 74, patch = 3,
      prerelease = [], build = [] \<rparr>"
    by (simp add: parse_defs)
  from getInstallation_first_match [of "''1.74.3''" "Some Installation_1_74" "new_VersionNotFound ''1.74.3''"] g p
  show ?thesis by simp
qed

text \<open>
  Claim C2. \<open>getInstallation V\<close> throws \<^verbatim>\<open>VersionNotFound\<close> made from \<open>V\<close> exactly when \<open>V\<close>
  satisfies none of the declared keys, and returns a constructor exactly when it satisfies
  one; no other exception is thrown, and the message \<^verbatim>\<open>Version V not found\<close> determines \<open>V\<close>.
  The declared bands are the versions 1.46 to 1.95: a string lies in one exactly when it
  parses to a version with major 1, minor between 46 and 95 and no prerelease tag. In
  particular \<^verbatim>\<open>1.96.0\<close> is not found.
\<close>

theorem getInstallation_VersionNotFound_iff:
  "(getInstallation V = Inl (new_VersionNotFound V) \<longleftrightarrow>
      (\<forall>k\<in>set (Object_keys versions). \<not> satisfies V k))
   \<and> ((\<exists>k\<in>set (Object_keys versions). satisfies V k) \<longleftrightarrow>
        (\<exists>c. getInstallation V = Inr (Some c)))
   \<and> (\<forall>e. getInstallation V = Inl e \<longrightarrow> e = new_VersionNotFound V)
   \<and> (\<forall>W. new_VersionNotFound W = new_VersionNotFound V \<longrightarrow> W = V)
   \<and> ((\<exists>k\<in>set (Object_keys versions). satisfies V k) \<longleftrightarrow>
        (\<exists>sv. new_SemVer V = Inr sv \<and> major sv = 1 \<and> 46 \<le> minor sv \<and> minor sv \<le> 95
           \<and> prerelease sv = []))
   \<and> getInstallation ''1.96.0'' = Inl (new_VersionNotFound ''1.96.0'')"
proof -
  have keys: "(\<forall>k\<in>set (Object_keys versions). \<not> satisfies V k) \<longleftrightarrow>
      (\<forall>i<length versions. \<not> satisfies V (fst (versions ! i)))"
    by (simp add: Object_keys_def) (metis in_set_conv_nth)
  have notfound: "getInstallation V = Inl (new_VersionNotFound V) \<longleftrightarrow>
      (\<forall>k\<in>set (Object_keys versions). \<not> satisfies V k)"
    by (simp add: getInstallation_Inl_iff keys)
  have found: "(\<exists>k\<in>set (Object_keys versions). satisfies V k) \<longleftrightarrow>
        (\<exists>c. getInstallation V = Inr (Some c))"
  proof
    assume "\<exists>k\<in>set (Object_keys versions). satisfies V k"
    with notfound have "getInstallation V \<noteq> Inl (new_VersionNotFound V)" by blast
    then obtain r where r: "getInstallation V = Inr r"
      by (cases "getInstallation V") (auto simp: getInstallation_Inl_iff)
    then obtain c where "r = Some c" by (auto simp: getInstallation_Inr_iff)
    with r show "\<exists>c. getInstallation V = Inr (Some c)" by blast
  next
    assume "\<exists>c. getInstallation V = Inr (Some c)"
    then have "getInstallation V \<noteq> Inl (new_VersionNotFound V)" by auto
    with notfound show "\<exists>k\<in>set (Object_keys versions). satisfies V k" by blast
  qed
  have only: "\<forall>e. getInstallation V = Inl e \<longrightarrow> e = new_VersionNotFound V"
    by (simp add: getInstallation_Inl_iff)
  have carried: "\<forall>W. new_VersionNotFound W = new_VersionNotFound V \<longrightarrow> W = V"
    by (simp add: inj_new_VersionNotFound)
  have above: "getInstallation ''1.96.0'' = Inl (new_VersionNotFound ''1.96.0'')"
    by (simp add: eval_1_96_0 new_VersionNotFound_def)
  from notfound found only carried in_band_iff [of V] above show ?thesis
    by (intro conjI)
qed

theorem getInstallation_VersionNotFound_iff_witness:
  "getInstallation ''1.96.0'' = Inl (VersionNotFound ''Version 1.96.0 not found'')
   \<and> \<not> satisfies ''1.96.0'' ''v1.95.x''
   \<and> (\<exists>c. getInstallation ''1.50.2'' = Inr (Some c))
   \<and> ''v1.50.x'' \<in> set (Object_keys versions) \<and> satisfies ''1.50.2'' ''v1.50.x''"
proof -
  have k95: "''v1.95.x'' \<in> set (Object_keys versions)"
    and k50: "''v1.50.x'' \<in> set (Object_keys versions)"
    by (simp_all add: versions_def Object_keys_def)
  have s50: "satisfies ''1.50.2'' ''v1.50.x''"
    by (simp add: parse_defs range_defs)
  from getInstallation_VersionNotFound_iff [of "''1.96.0''"] k95
  have a: "getInstallation ''1.96.0'' = Inl (new_VersionNotFound ''1.96.0'')"
    "\<not> satisfies ''1.96.0'' ''v1.95.x''"
    by blast+
  from getInstallation_VersionNotFound_iff [of "''1.50.2''"] k50 s50
  have b: "\<exists>c. getInstallation ''1.50.2'' = Inr (Some c)"
    by blast
  from a b k50 s50 show ?thesis by (simp add: new_VersionNotFound_def)
qed

text \<open>
  Claim C4. The declared range patterns are pairwise disjoint: no version string satisfies
  two different keys of the registry (and no key is written twice).
\<close>

theorem ranges_pairwise_disjoint:
  "(\<forall>p\<in>set (Object_keys versions). \<forall>q\<in>set (Object_keys versions).
      p \<noteq> q \<longrightarrow> \<not> (\<exists>V. satisfies V p \<and> satisfies V q))
   \<and> distinct (Object_keys versions)"
proof (intro conjI ballI impI notI)
  fix p q
  assume p: "p \<in> set (Object_keys versions)" and q: "q \<in> set (Object_keys versions)"
    and ne: "p \<noteq> q" and ex: "\<exists>V. satisfies V p \<and> satisfies V q"
  from p obtain i where i: "i < length versions" "p = fst (versions ! i)"
    by (auto simp: Object_keys_def in_set_conv_nth)
  from q obtain j where j: "j < length versions" "q = fst (versions ! j)"
    by (auto simp: Object_keys_def in_set_conv_nth)
  from ex obtain V where V: "satisfies V p" "satisfies V q" by blast
  from V(1) i obtain sv where sv: "new_SemVer V = Inr sv" "minor sv = minors ! i"
    by (auto simp: satisfies_key)
  from V(2) j obtain sv' where sv': "new_SemVer V = Inr sv'" "minor sv' = minors ! j"
    by (auto simp: satisfies_key)
  from sv sv' have "minors ! i = minors ! j" by simp
  with i(1) j(1) have "i = j"
    by (simp add: nth_eq_iff_index_eq [OF distinct_minors] length_versions)
  with i j ne show False by simp
next
  show "distinct (Object_keys versions)" by (rule distinct_keys)
qed

theorem ranges_pairwise_disjoint_witness:
  "''v1.79.x'' \<in> set (Object_keys versions) \<and> ''v1.80.x'' \<in> set (Object_keys versions)
   \<and> ''v1.79.x'' \<noteq> ''v1.80.x''
   \<and> satisfies ''1.80.3'' ''v1.80.x'' \<and> \<not> satisfies ''1.80.3'' ''v1.79.x''"
proof -
  have k: "''v1.79.x'' \<in> set (Object_keys versions)" "''v1.80.x'' \<in> set (Object_keys versions)"
    by (simp_all add: versions_def Object_keys_def)
  have s: "satisfies ''1.80.3'' ''v1.80.x''"
    by (simp add: parse_defs range_defs)
  from ranges_pairwise_disjoint k s have "\<not> satisfies ''1.80.3'' ''v1.79.x''"
    by fastforce
  with k s show ?thesis by simp
qed

lemma convertStateValues_cases:
  "convertStateValues state targetVersion =
     (if \<exists>sv. VersionedState.version state = Some sv \<and> (\<exists>k\<in>set (Object_keys versions). satisfies sv k)
      then Inr state
      else Inl (new_VersionNotFound (templateString (VersionedState.version state))))"
proof (cases "find (\<lambda>v. case VersionedState.version state of None \<Rightarrow> False | Some sv \<Rightarrow> satisfies sv v)
    (Object_keys versions)")
  case None
  then have "\<not> (\<exists>sv. VersionedState.version state = Some sv
      \<and> (\<exists>k\<in>set (Object_keys versions). satisfies sv k))"
    by (auto simp: find_None_iff)
  with None show ?thesis by (simp add: convertStateValues_def)
next
  case (Some k)
  then have "\<exists>sv. VersionedState.version state = Some sv
      \<and> (\<exists>k\<in>set (Object_keys versions). satisfies sv k)"
    by (auto simp: find_Some_iff split: option.splits intro: nth_mem)
  with Some show ?thesis by (simp add: convertStateValues_def)
qed

text \<open>
  Claim C7. \<open>convertStateValues state targetVersion\<close> does not depend on
  \<open>targetVersion\<close>. It returns \<open>state\<close> itself exactly when the state's own version tag
  satisfies some key of the registry, and otherwise throws \<^verbatim>\<open>VersionNotFound\<close> made from
  the state's version tag.
\<close>

theorem convertStateValues_passthrough:
  "convertStateValues state targetVersion = convertStateValues state targetVersion'
   \<and> (convertStateValues state targetVersion = Inr state \<longleftrightarrow>
        (\<exists>sv. VersionedState.version state = Some sv
           \<and> (\<exists>k\<in>set (Object_keys versions). satisfies sv k)))
   \<and> (convertStateValues state targetVersion
         = Inl (new_VersionNotFound (templateString (VersionedState.version state))) \<longleftrightarrow>
        \<not> (\<exists>sv. VersionedState.version state = Some sv
           \<and> (\<exists>k\<in>set (Object_keys versions). satisfies sv k)))
   \<and> (\<forall>sv. VersionedState.version state = Some sv \<longrightarrow>
        templateString (VersionedState.version state) = sv)"
proof (intro conjI)
  show "convertStateValues state targetVersion = convertStateValues state targetVersion'"
    by (simp only: convertStateValues_cases)
  show "convertStateValues state targetVersion = Inr state \<longleftrightarrow>
        (\<exists>sv. VersionedState.version state = Some sv
           \<and> (\<exists>k\<in>set (Object_keys versions). satisfies sv k))"
    by (simp add: convertStateValues_cases)
  show "convertStateValues state targetVersion
         = Inl (new_VersionNotFound (templateString (VersionedState.version state))) \<longleftrightarrow>
        \<not> (\<exists>sv. VersionedState.version state = Some sv
           \<and> (\<exists>k\<in>set (Object_keys versions). satisfies sv k))"
    by (simp add: convertStateValues_cases)
  show "\<forall>sv. VersionedState.version state = Some sv \<longrightarrow>
        templateString (VersionedState.version state) = sv"
    by (simp add: templateString_def)
qed

theorem convertStateValues_passthrough_witness:
  "convertStateValues \<lparr> VersionedState.version = Some ''1.62.0'', apiserver = None \<rparr> ''1.80.3''
     = Inr \<lparr> VersionedState.version = Some ''1.62.0'', apiserver = None \<rparr>
   \<and> convertStateValues \<lparr> VersionedState.version = Some ''2.0.0'', apiserver = None \<rparr> ''1.80.3''
     = Inl (VersionNotFound ''Version 2.0.0 not found'')
   \<and> convertStateValues \<lparr> VersionedState.version = Some ''2.0.0'', apiserver = None \<rparr> ''1.80.3''
     = convertStateValues \<lparr> VersionedState.version = Some ''2.0.0'', apiserver = None \<rparr> ''1.46.0''"
proof -
  have k: "''v1.62.x'' \<in> set (Object_keys versions)"
    by (simp add: versions_def Object_keys_def)
  have s: "satisfies ''1.62.0'' ''v1.62.x''"
    by (simp add: parse_defs range_defs)
  have n: "\<not> (\<exists>k\<in>set (Object_keys versions). satisfies ''2.0.0'' k)"
    by (simp add: in_band_iff parse_defs)
  from k s
    convertStateValues_passthrough [of "\<lparr> VersionedState.version = Some ''1.62.0'', apiserver = None \<rparr>"
      "''1.80.3''" "''1.46.0''"]
  have a: "convertStateValues \<lparr> VersionedState.version = Some ''1.62.0'', apiserver = None \<rparr> ''1.80.3''
     = Inr \<lparr> VersionedState.version = Some ''1.62.0'', apiserver = None \<rparr>"
    by auto
  from n
    convertStateValues_passthrough [of "\<lparr> VersionedState.version = Some ''2.0.0'', apiserver = None \<rparr>"
      "''1.80.3''" "''1.46.0''"]
  have b: "convertStateValues \<lparr> VersionedState.version = Some ''2.0.0'', apiserver = None \<rparr> ''1.80.3''
     = Inl (VersionNotFound ''Version 2.0.0 not found'')"
    "convertStateValues \<lparr> VersionedState.version = Some ''2.0.0'', apiserver = None \<rparr> ''1.80.3''
     = convertStateValues \<lparr> VersionedState.version = Some ''2.0.0'', apiserver = None \<rparr> ''1.46.0''"
    by (auto simp: new_VersionNotFound_def templateString_def)
  from a b show ?thesis by simp
qed

section \<open>The v1.80 installer: the floor of the apiserver version\<close>

lemma target_eval:
  "targetVirtualClusterVersion = Inr \<lparr> raw = ''v1.23.16'', major = 1, minor = 23, patch = 16,
     prerelease = [], build = [] \<rparr>"
  by (simp add: targetVirtualClusterVersion_def parse_defs)

lemma install_validated:
  assumes "isStateValues H s" "VersionedState.apiserver s = Some a"
    "new_SemVer (ApiserverState.version a) = Inr v" "targetVirtualClusterVersion = Inr target"
  shows "install H super flow (Some s) iv =
     super flow (if compareMain v target = - 1
                 then s\<lparr> VersionedState.apiserver := Some (a\<lparr> ApiserverState.version := raw target \<rparr>) \<rparr>
                 else s) iv"
  by (simp add: install_def assms)

lemma install_unvalidated:
  assumes "\<not> isStateValues H s"
  shows "install H super flow (Some s) iv = Inl (validateState H s)"
  using assms by (simp add: install_def)







lemma compareMain_older:
  "compareMain v target = - 1 \<longleftrightarrow>
     (major v < major target
      \<or> (major v = major target
          \<and> (minor v < minor target \<or> (minor v = minor target \<and> patch v < patch target))))"
  by (auto simp: compareMain_def compareNumbers_def)

text \<open>
  Claim C3, as stated, at the scenario it names: with the prior apiserver version
  \<^verbatim>\<open>1.20.0\<close> and the target version \<^verbatim>\<open>1.80.3\<close> the state handed to the next installer
  carries the apiserver version \<^verbatim>\<open>v1.23.16\<close>, the \<^verbatim>\<open>raw\<close> text of the floor constant, and
  not \<^verbatim>\<open>1.23.16\<close>. (The delegate here returns the state it is handed.)
\<close>

theorem install_floor_is_raw_string:
  "install (specValues \<lparr> VersionedState.version = None, apiserver = None \<rparr>)
      (\<lambda>flow s iv. Inr s) ()
      (Some \<lparr> VersionedState.version = Some ''1.74.0'',
              apiserver = Some \<lparr> ApiserverState.version = ''1.20.0'' \<rparr> \<rparr>)
      \<lparr> VersionedValues.version = ''1.80.3'' \<rparr>
     = Inr \<lparr> VersionedState.version = Some ''1.74.0'',
             apiserver = Some \<lparr> ApiserverState.version = ''v1.23.16'' \<rparr> \<rparr>
   \<and> install (specValues \<lparr> VersionedState.version = None, apiserver = None \<rparr>)
      (\<lambda>flow s iv. Inr s) ()
      (Some \<lparr> VersionedState.version = Some ''1.74.0'',
              apiserver = Some \<lparr> ApiserverState.version = ''1.20.0'' \<rparr> \<rparr>)
      \<lparr> VersionedValues.version = ''1.80.3'' \<rparr>
     \<noteq> Inr \<lparr> VersionedState.version = Some ''1.74.0'',
             apiserver = Some \<lparr> ApiserverState.version = ''1.23.16'' \<rparr> \<rparr>"
proof -
  have p: "new_SemVer ''1.20.0'' = Inr \<lparr> raw = ''1.20.0'', major = 1, minor = 20, patch = 0,
      prerelease = [], build = [] \<rparr>"
    by (simp add: parse_defs)
  show ?thesis
    by (simp add: install_def specValues_def missingFields_def p target_eval compareMain_def
        compareNumbers_def)
qed

text \<open>
  Claim C3, amended. For every prior state that passes \<^verbatim>\<open>isStateValues\<close> and whose
  apiserver version parses to a version older than the floor on major, minor and patch,
  \<^verbatim>\<open>install\<close> of the v1.80 installer hands to \<^verbatim>\<open>super.install\<close> the state with its
  apiserver version set to the string \<^verbatim>\<open>v1.23.16\<close>, the floor as the source writes it;
  that string parses to the floor itself, the version 1.23.16, so the new value is neither
  lower nor higher than the floor.
\<close>

theorem install_raises_to_floor:
  assumes "isStateValues H s"
    and "VersionedState.apiserver s = Some a"
    and "new_SemVer (ApiserverState.version a) = Inr v"
    and "targetVirtualClusterVersion = Inr target"
    and "compareMain v target = - 1"
  shows "install H super flow (Some s) iv
           = super flow
               (s\<lparr> VersionedState.apiserver := Some (a\<lparr> ApiserverState.version := ''v1.23.16'' \<rparr>) \<rparr>) iv
         \<and> new_SemVer ''v1.23.16'' = Inr target
         \<and> major target = 1 \<and> minor target = 23 \<and> patch target = 16
         \<and> (major v < 1 \<or> (major v = 1 \<and> (minor v < 23 \<or> (minor v = 23 \<and> patch v < 16))))"
proof -
  from assms(4) have t: "target = \<lparr> raw = ''v1.23.16'', major = 1, minor = 23, patch = 16,
     prerelease = [], build = [] \<rparr>"
    by (simp add: target_eval)
  then have r: "raw target = ''v1.23.16''" and m: "major target = 1" "minor target = 23"
    "patch target = 16"
    by simp_all
  from install_validated [OF assms(1-4)] assms(5) r
  have "install H super flow (Some s) iv
           = super flow
               (s\<lparr> VersionedState.apiserver := Some (a\<lparr> ApiserverState.version := ''v1.23.16'' \<rparr>) \<rparr>) iv"
    by simp
  moreover from assms(4) have "new_SemVer ''v1.23.16'' = Inr target"
    by (simp add: targetVirtualClusterVersion_def)
  moreover from assms(5) m
  have "major v < 1 \<or> (major v = 1 \<and> (minor v < 23 \<or> (minor v = 23 \<and> patch v < 16)))"
    by (simp add: compareMain_older)
  ultimately show ?thesis using m by simp
qed

theorem install_raises_to_floor_witness:
  "isStateValues (specValues \<lparr> VersionedState.version = None, apiserver = None \<rparr>)
      \<lparr> VersionedState.version = Some ''1.74.0'',
        apiserver = Some \<lparr> ApiserverState.version = ''1.20.0'' \<rparr> \<rparr>
   \<and> compareMain \<lparr> raw = ''1.20.0'', major = 1, minor = 20, patch = 0, prerelease = [], build = [] \<rparr>
        \<lparr> raw = ''v1.23.16'', major = 1, minor = 23, patch = 16, prerelease = [], build = [] \<rparr> = - 1
   \<and> install (specValues \<lparr> VersionedState.version = None, apiserver = None \<rparr>)
      (\<lambda>flow s iv. Inr s) ()
      (Some \<lparr> VersionedState.version = Some ''1.74.0'',
              apiserver = Some \<lparr> ApiserverState.version = ''1.20.0'' \<rparr> \<rparr>)
      \<lparr> VersionedValues.version = ''1.80.3'' \<rparr>
     = Inr \<lparr> VersionedState.version = Some ''1.74.0'',
             apiserver = Some \<lparr> ApiserverState.version = ''v1.23.16'' \<rparr> \<rparr>"
proof -
  let ?H = "specValues \<lparr> VersionedState.version = None, apiserver = None \<rparr>"
  let ?s = "\<lparr> VersionedState.version = Some ''1.74.0'',
        apiserver = Some \<lparr> ApiserverState.version = ''1.20.0'' \<rparr> \<rparr>"
  let ?v = "\<lparr> raw = ''1.20.0'', major = 1, minor = 20, patch = 0, prerelease = [], build = [] \<rparr>"
  let ?t = "\<lparr> raw = ''v1.23.16'', major = 1, minor = 23, patch = 16, prerelease = [], build = [] \<rparr>"
  have 1: "isStateValues ?H ?s"
    by (simp add: specValues_def missingFields_def)
  have 2: "VersionedState.apiserver ?s = Some \<lparr> ApiserverState.version = ''1.20.0'' \<rparr>"
    by simp
  have 3: "new_SemVer (ApiserverState.version \<lparr> ApiserverState.version = ''1.20.0'' \<rparr>) = Inr ?v"
    by (simp add: parse_defs)
  have 5: "compareMain ?v ?t = - 1"
    by (simp add: compareMain_def compareNumbers_def)
  from install_raises_to_floor [OF 1 2 3 target_eval 5, of "\<lambda>flow s iv. Inr s" "()"
      "\<lparr> VersionedValues.version = ''1.80.3'' \<rparr>"] 1 5
  show ?thesis by simp
qed

text \<open>
  Claim C10. For every prior state that passes \<^verbatim>\<open>isStateValues\<close> and whose apiserver
  version parses: if the version is not older than the floor 1.23.16 on major, minor and
  patch, the state handed to \<^verbatim>\<open>super.install\<close> is the prior state itself; and in every
  case it is the prior state with at most the \<^verbatim>\<open>version\<close> of its \<^verbatim>\<open>apiserver\<close> entry
  replaced, so no other field is changed before delegating.
\<close>

theorem install_frame:
  assumes "isStateValues H s"
    and "VersionedState.apiserver s = Some a"
    and "new_SemVer (ApiserverState.version a) = Inr v"
    and "targetVirtualClusterVersion = Inr target"
  shows "(compareMain v target \<noteq> - 1 \<longrightarrow> install H super flow (Some s) iv = super flow s iv)
       \<and> (\<exists>x. install H super flow (Some s) iv
                = super flow (s\<lparr> VersionedState.apiserver := Some (a\<lparr> ApiserverState.version := x \<rparr>) \<rparr>) iv)
       \<and> (compareMain v target \<noteq> - 1 \<longleftrightarrow>
            (1 < major v \<or> (major v = 1 \<and> (23 < minor v \<or> (minor v = 23 \<and> 16 \<le> patch v)))))"
proof (intro conjI impI)
  assume "compareMain v target \<noteq> - 1"
  with install_validated [OF assms] show "install H super flow (Some s) iv = super flow s iv"
    by simp
next
  from assms(2) have same: "s\<lparr> VersionedState.apiserver := Some (a\<lparr> ApiserverState.version := ApiserverState.version a \<rparr>) \<rparr> = s"
    by simp
  show "\<exists>x. install H super flow (Some s) iv
                = super flow (s\<lparr> VersionedState.apiserver := Some (a\<lparr> ApiserverState.version := x \<rparr>) \<rparr>) iv"
  proof (cases "compareMain v target = - 1")
    case True
    with install_validated [OF assms, of super flow iv]
    have "install H super flow (Some s) iv
        = super flow (s\<lparr> VersionedState.apiserver := Some (a\<lparr> ApiserverState.version := raw target \<rparr>) \<rparr>) iv"
      by simp
    then show ?thesis by blast
  next
    case False
    with install_validated [OF assms, of super flow iv] same
    have "install H super flow (Some s) iv
        = super flow (s\<lparr> VersionedState.apiserver := Some (a\<lparr> ApiserverState.version := ApiserverState.version a \<rparr>) \<rparr>) iv"
      by simp
    then show ?thesis by blast
  qed
next
  from assms(4) have "target = \<lparr> raw = ''v1.23.16'', major = 1, minor = 23, patch = 16,
     prerelease = [], build = [] \<rparr>"
    by (simp add: target_eval)
  then have "major target = 1" "minor target = 23" "patch target = 16"
    by simp_all
  then show "compareMain v target \<noteq> - 1 \<longleftrightarrow>
      (1 < major v \<or> (major v = 1 \<and> (23 < minor v \<or> (minor v = 23 \<and> 16 \<le> patch v))))"
    by (auto simp: compareMain_older)
qed

theorem install_frame_witness:
  "isStateValues (specValues \<lparr> VersionedState.version = None, apiserver = None \<rparr>)
      \<lparr> VersionedState.version = Some ''1.74.0'',
        apiserver = Some \<lparr> ApiserverState.version = ''1.25.4'' \<rparr> \<rparr>
   \<and> compareMain \<lparr> raw = ''1.25.4'', major = 1, minor = 25, patch = 4, prerelease = [], build = [] \<rparr>
        \<lparr> raw = ''v1.23.16'', major = 1, minor = 23, patch = 16, prerelease = [], build = [] \<rparr> \<noteq> - 1
   \<and> install (specValues \<lparr> VersionedState.version = None, apiserver = None \<rparr>)
      (\<lambda>flow s iv. Inr s) ()
      (Some \<lparr> VersionedState.version = Some ''1.74.0'',
              apiserver = Some \<lparr> ApiserverState.version = ''1.25.4'' \<rparr> \<rparr>)
      \<lparr> VersionedValues.version = ''1.80.3'' \<rparr>
     = Inr \<lparr> VersionedState.version = Some ''1.74.0'',
             apiserver = Some \<lparr> ApiserverState.version = ''1.25.4'' \<rparr> \<rparr>"
proof -
  let ?H = "specValues \<lparr> VersionedState.version = None, apiserver = None \<rparr>"
  let ?s = "\<lparr> VersionedState.version = Some ''1.74.0'',
        apiserver = Some \<lparr> ApiserverState.version = ''1.25.4'' \<rparr> \<rparr>"
  let ?v = "\<lparr> raw = ''1.25.4'', major = 1, minor = 25, patch = 4, prerelease = [], build = [] \<rparr>"
  let ?t = "\<lparr> raw = ''v1.23.16'', major = 1, minor = 23, patch = 16, prerelease = [], build = [] \<rparr>"
  have 1: "isStateValues ?H ?s"
    by (simp add: specValues_def missingFields_def)
  have 2: "VersionedState.apiserver ?s = Some \<lparr> ApiserverState.version = ''1.25.4'' \<rparr>"
    by simp
  have 3: "new_SemVer (ApiserverState.version \<lparr> ApiserverState.version = ''1.25.4'' \<rparr>) = Inr ?v"
    by (simp add: parse_defs)
  have 5: "compareMain ?v ?t \<noteq> - 1"
    by (simp add: compareMain_def compareNumbers_def)
  from install_frame [OF 1 2 3 target_eval, of "\<lambda>flow s iv. Inr s" "()"
      "\<lparr> VersionedValues.version = ''1.80.3'' \<rparr>"] 1 5
  show ?thesis by simp
qed

text \<open>
  Claim C5, as stated, at a prior state without a version tag and the target version
  \<^verbatim>\<open>1.80.3\<close>: the registry resolves the target to the v1.80 installer without looking at
  the state, and the validation error is the outcome of calling that installer's
  \<^verbatim>\<open>install\<close>; it is not raised before an installer is resolved and invoked.
\<close>

theorem install_validation_inside_installer:
  "getInstallation ''1.80.3'' = Inr (Some Installation_1_80)
   \<and> install (specValues \<lparr> VersionedState.version = None, apiserver = None \<rparr>)
        (\<lambda>flow s iv. Inr ()) ()
        (Some \<lparr> VersionedState.version = None,
                apiserver = Some \<lparr> ApiserverState.version = ''1.20.0'' \<rparr> \<rparr>)
        \<lparr> VersionedValues.version = ''1.80.3'' \<rparr>
      = Inl (MalformedStateError [''version''])"
proof -
  have "getInstallation ''1.80.3'' = Inr (Some Installation_1_80)"
    by (simp add: getInstallation_def Object_keys_def versions_def parse_defs range_defs)
  moreover have "install (specValues \<lparr> VersionedState.version = None, apiserver = None \<rparr>)
        (\<lambda>flow s iv. Inr ()) ()
        (Some \<lparr> VersionedState.version = None,
                apiserver = Some \<lparr> ApiserverState.version = ''1.20.0'' \<rparr> \<rparr>)
        \<lparr> VersionedValues.version = ''1.80.3'' \<rparr>
      = Inl (MalformedStateError [''version''])"
    by (simp add: install_def specValues_def missingFields_def)
  ultimately show ?thesis by simp
qed

text \<open>
  Claim C5, amended. For every prior state that fails \<^verbatim>\<open>isStateValues\<close>, \<^verbatim>\<open>install\<close> of
  the v1.80 installer throws what \<^verbatim>\<open>validateState\<close> returns for it, whatever
  \<^verbatim>\<open>super.install\<close> is: the error is raised inside the invoked installer, before the
  floor check and before delegating, and it is not caught. With the validator as the spec
  describes it, a state without a version tag yields a \<^verbatim>\<open>MalformedStateError\<close> that
  lists \<^verbatim>\<open>version\<close> among the missing fields.
\<close>

theorem install_rejects_malformed_state:
  "(\<not> isStateValues H s \<longrightarrow>
      install H super flow (Some s) iv = Inl (validateState H s))
   \<and> (VersionedState.version s = None \<longrightarrow>
        install (specValues blank) super flow (Some s) iv
          = Inl (MalformedStateError (missingFields s))
        \<and> ''version'' \<in> set (missingFields s))"
proof (intro conjI impI)
  assume "\<not> isStateValues H s"
  then show "install H super flow (Some s) iv = Inl (validateState H s)"
    by (rule install_unvalidated)
next
  assume n: "VersionedState.version s = None"
  then show v: "''version'' \<in> set (missingFields s)"
    by (simp add: missingFields_def)
  then have "\<not> isStateValues (specValues blank) s"
    by (auto simp: specValues_def)
  then have "install (specValues blank) super flow (Some s) iv
      = Inl (validateState (specValues blank) s)"
    by (rule install_unvalidated)
  then show "install (specValues blank) super flow (Some s) iv
      = Inl (MalformedStateError (missingFields s))"
    by (simp add: specValues_def)
qed

theorem install_rejects_malformed_state_witness:
  "\<not> isStateValues (specValues \<lparr> VersionedState.version = None, apiserver = None \<rparr>)
       \<lparr> VersionedState.version = None,
         apiserver = Some \<lparr> ApiserverState.version = ''not a version'' \<rparr> \<rparr>
   \<and> install (specValues \<lparr> VersionedState.version = None, apiserver = None \<rparr>)
        (\<lambda>flow s iv. Inl (InfrastructureError ''delegate reached'')) ()
        (Some \<lparr> VersionedState.version = None,
                apiserver = Some \<lparr> ApiserverState.version = ''not a version'' \<rparr> \<rparr>)
        \<lparr> VersionedValues.version = ''1.80.3'' \<rparr>
      = (Inl (MalformedStateError [''version'']) :: exception + unit)"
proof -
  let ?H = "specValues \<lparr> VersionedState.version = None, apiserver = None \<rparr>"
  let ?s = "\<lparr> VersionedState.version = None,
         apiserver = Some \<lparr> ApiserverState.version = ''not a version'' \<rparr> \<rparr>"
  have 1: "\<not> isStateValues ?H ?s"
    by (simp add: specValues_def missingFields_def)
  have 2: "validateState ?H ?s = MalformedStateError [''version'']"
    by (simp add: specValues_def missingFields_def)
  from install_rejects_malformed_state [of ?H ?s
      "\<lambda>flow s iv. (Inl (InfrastructureError ''delegate reached'') :: exception + unit)" "()"
      "\<lparr> VersionedValues.version = ''1.80.3'' \<rparr>"] 1 2
  show ?thesis by (simp add: missingFields_def)
qed



section \<open>The control-plane deployment task: order of the calls\<close>

lemma shape_seq_fail: "shape X (Inl e) new L1 \<Longrightarrow> shape X (Inl e) new (L1 @ L2)"
  by (auto simp: shape_def)

lemma shape_seq:
  assumes "shape X (Inr a) new1 L1" "shape X res new2 L2"
  shows "shape X res (new1 @ new2) (L1 @ L2)"
proof -
  from assms(1) have 1: "labels new1 = L1" "list_all (\<lambda>x. snd x = None) new1"
    "list_all (\<lambda>x. X (fst x)) new1"
    by (simp_all add: shape_def)
  from assms(2) have 2: "prefix (labels new2) L2" "list_all (\<lambda>x. snd x = None) (butlast new2)"
    "list_all (\<lambda>x. X (fst x)) new2"
    by (simp_all add: shape_def)
  have p: "prefix (labels (new1 @ new2)) (L1 @ L2)"
    using 1 2 by (simp add: labels_def)
  have x: "list_all (\<lambda>x. X (fst x)) (new1 @ new2)"
    using 1 2 by simp
  have b: "list_all (\<lambda>x. snd x = None) (butlast (new1 @ new2))"
  proof (cases "new2 = []")
    case True
    with 1 show ?thesis by (auto simp: list_all_iff dest: in_set_butlastD)
  next
    case False
    with 1 2 show ?thesis by (auto simp: butlast_append list_all_iff)
  qed
  show ?thesis
  proof (cases res)
    case (Inl e)
    with assms(2) have "list_all (\<lambda>x. snd x = None \<or> snd x = Some e) new2"
      by (simp add: shape_def)
    with 1 have "list_all (\<lambda>x. snd x = None \<or> snd x = Some e) (new1 @ new2)"
      by (auto simp: list_all_iff)
    with p x b Inl show ?thesis by (simp add: shape_def)
  next
    case (Inr r)
    with assms(2) have "labels new2 = L2" "list_all (\<lambda>x. snd x = None) new2"
      by (simp_all add: shape_def)
    with 1 have "labels (new1 @ new2) = L1 @ L2" "list_all (\<lambda>x. snd x = None) (new1 @ new2)"
      by (simp_all add: labels_def)
    with p x b Inr show ?thesis by (simp add: shape_def)
  qed
qed

lemma behaves_andThen:
  assumes m: "behaves P Inv X m L1 Q" and f: "\<And>a. behaves (Q a) Inv X (f a) L2 R"
  shows "behaves P Inv X (andThen m f) (L1 @ L2) R"
  unfolding behaves_def
proof (intro allI impI)
  fix t tr assume "P t"
  with m obtain new1 where n1: "snd (snd (m (t, tr))) = tr @ new1"
      "shape X (fst (m (t, tr))) new1 L1" "Inv (fst (snd (m (t, tr))))"
      "\<forall>a. fst (m (t, tr)) = Inr a \<longrightarrow> Q a (fst (snd (m (t, tr))))"
    unfolding behaves_def by blast
  obtain res t' tr' where r: "m (t, tr) = (res, t', tr')" by (cases "m (t, tr)") auto
  show "\<exists>new. snd (snd (andThen m f (t, tr))) = tr @ new
           \<and> shape X (fst (andThen m f (t, tr))) new (L1 @ L2)
           \<and> Inv (fst (snd (andThen m f (t, tr))))
           \<and> (\<forall>a. fst (andThen m f (t, tr)) = Inr a \<longrightarrow> R a (fst (snd (andThen m f (t, tr)))))"
  proof (cases res)
    case (Inl e)
    with r have a: "andThen m f (t, tr) = (Inl e, t', tr')" by (simp add: andThen_def)
    from n1 r Inl have "tr' = tr @ new1" "shape X (Inl e) new1 (L1 @ L2)" "Inv t'"
      by (simp_all add: shape_seq_fail)
    with a show ?thesis by auto
  next
    case (Inr a)
    with r have a: "andThen m f (t, tr) = f a (t', tr')" by (simp add: andThen_def)
    from n1 r Inr have q: "tr' = tr @ new1" "shape X (Inr a) new1 L1" "Q a t'" by simp_all
    from f [of a] q(3) obtain new2 where n2: "snd (snd (f a (t', tr'))) = tr' @ new2"
      "shape X (fst (f a (t', tr'))) new2 L2" "Inv (fst (snd (f a (t', tr'))))"
      "\<forall>b. fst (f a (t', tr')) = Inr b \<longrightarrow> R b (fst (snd (f a (t', tr'))))"
      unfolding behaves_def by blast
    from q n2 have "snd (snd (f a (t', tr'))) = tr @ (new1 @ new2)"
      "shape X (fst (f a (t', tr'))) (new1 @ new2) (L1 @ L2)"
      by (simp_all add: shape_seq)
    with n2(3,4) a show ?thesis by auto
  qed
qed

lemma behaves_weaken_post:
  "behaves P Inv X m L Q \<Longrightarrow> behaves P Inv X m L (\<lambda>a t. True)"
  unfolding behaves_def by (simp, blast)

lemma step_call:
  assumes "\<And>t. P t \<Longrightarrow> Inv t \<and> labelOf (ev t) = l \<and> X (ev t)"
  shows "behaves P Inv X (\<lambda>s. call (ev (fst s)) (answer (fst s)) s) [l] (\<lambda>a. P)"
  using assms by (auto simp: behaves_def call_def shape_def labels_def split: sum.splits)

lemma step_call0:
  assumes "\<And>t. P t \<Longrightarrow> Inv t \<and> labelOf ev = l \<and> X ev"
  shows "behaves P Inv X (call ev answer) [l] (\<lambda>a. P)"
  using assms by (auto simp: behaves_def call_def shape_def labels_def split: sum.splits)

lemma step_pure:
  assumes "\<And>t. P t \<Longrightarrow> Inv t"
  shows "behaves P Inv X (\<lambda>s. (r (fst s), s)) [] (\<lambda>a. P)"
  using assms by (auto simp: behaves_def shape_def labels_def split: sum.splits)

lemma step_mint:
  assumes "\<And>t. P t \<Longrightarrow> Inv t \<and> (virtualClient t \<noteq> None) = mints"
    and "\<And>c. mints \<Longrightarrow> X (GetKubeConfigForServiceAccount c (GardenerNamespace ext) nm)"
  shows "behaves P Inv X (Gardener_getKubeConfigForServiceAccount ext nm)
           (if mints then [Mint nm] else []) (\<lambda>a t. (\<not> mints \<longrightarrow> a = ''dumy-'' @ nm) \<and> P t)"
  unfolding behaves_def
proof (intro allI impI)
  fix t :: "'a Gardener" and tr :: "'b entry list"
  assume p: "P t"
  let ?m = "Gardener_getKubeConfigForServiceAccount ext nm (t, tr)"
  show "\<exists>new. snd (snd ?m) = tr @ new
          \<and> shape X (fst ?m) new (if mints then [Mint nm] else [])
          \<and> Inv (fst (snd ?m))
          \<and> (\<forall>a. fst ?m = Inr a \<longrightarrow> (\<not> mints \<longrightarrow> a = ''dumy-'' @ nm) \<and> P (fst (snd ?m)))"
  proof (cases "virtualClient t")
    case None
    with assms(1) [OF p] have "\<not> mints" by simp
    with None p assms(1) [OF p] show ?thesis
      by (simp add: Gardener_getKubeConfigForServiceAccount_def shape_def labels_def)
  next
    case (Some c)
    with assms(1) [OF p] have "mints" by simp
    with Some p assms(1) [OF p] assms(2) [of c] show ?thesis
      by (auto simp: Gardener_getKubeConfigForServiceAccount_def call_def shape_def labels_def
          split: sum.splits)
  qed
qed

lemma Gardener_do_behaves:
  assumes wait: "behaves P0 Inv X
      (\<lambda>s. if \<not> dryRun (fst s) then
          (case call WaitUntilVirtualClusterIsReady
                  (waitUntilVirtualClusterIsReady ext (values' (fst s))) s of
             (Inl e, s') \<Rightarrow> (Inl e, s')
           | (Inr c, s') \<Rightarrow> (Inr (), (fst s')\<lparr> virtualClient := Some c \<rparr>, snd s'))
        else (Inr (), s)) W (\<lambda>a. P1)"
    and inv0: "\<And>t. P0 t \<Longrightarrow> Inv t" and inv1: "\<And>t. P1 t \<Longrightarrow> Inv t"
    and mints: "\<And>t. P1 t \<Longrightarrow> (virtualClient t \<noteq> None) = mints"
    and xlog: "\<And>m. X (LogInfo m)"
    and xrel: "\<And>gv. X (GetRelease (ApplicationChart gv))"
    and xapp: "\<And>gv r t. P1 t \<Longrightarrow>
        X (HelmCreateOrUpdate (ApplicationChart gv) r (map_option getKubeConfig (virtualClient t)))"
    and xmint: "\<And>c n. mints \<Longrightarrow> X (GetKubeConfigForServiceAccount c (GardenerNamespace ext) n)"
    and xrt: "\<And>c. name c = ''gardener-runtime'' \<Longrightarrow> (\<not> mints \<longrightarrow> placeholders (renderValues c))
        \<Longrightarrow> X (GetRelease c)"
    and xapprt: "\<And>c r. X (HelmCreateOrUpdate c r None)"
  shows "behaves P0 Inv X (Gardener_do ext)
     ([Log] @ W @ [Log] @ [] @ [Release ''gardener-application'']
       @ [Apply ''gardener-application'']
       @ (if mints then [Mint ''gardener-apiserver''] else [])
       @ (if mints then [Mint ''gardener-controller-manager''] else [])
       @ (if mints then [Mint ''gardener-scheduler''] else [])
       @ (if mints then [Mint ''gardener-admission-controller''] else [])
       @ [Release ''gardener-runtime''] @ [Apply ''gardener-runtime''])
     (\<lambda>a t. True)"
  unfolding Gardener_do_def Let_def
  apply (rule behaves_andThen)
   apply (rule step_call0)
   apply (simp add: inv0 xlog)
  apply (rule behaves_andThen)
   apply (rule wait)
  apply (rule behaves_andThen)
   apply (rule step_call0)
   apply (simp add: inv1 xlog)
  apply (rule behaves_andThen)
   apply (rule step_pure [OF inv1], assumption)
  apply (rule behaves_andThen)
   apply (rule step_call [where ev = "\<lambda>_. GetRelease _"])
   apply (simp add: inv1 xrel, simp add: ApplicationChart_def)
  apply (rule behaves_andThen)
   apply (rule step_call)
   apply (simp add: inv1 xapp, simp add: ApplicationChart_def)
  apply (rule behaves_andThen)
   apply (rule step_mint)
    apply (use inv1 mints in blast)
   apply (erule xmint)
  apply (rule behaves_andThen)
   apply (rule step_mint)
    apply (use inv1 mints in blast)
   apply (erule xmint)
  apply (rule behaves_andThen)
   apply (rule step_mint)
    apply (use inv1 mints in blast)
   apply (erule xmint)
  apply (rule behaves_andThen)
   apply (rule step_mint)
    apply (use inv1 mints in blast)
   apply (erule xmint)
  apply (rule behaves_andThen)
   apply (rule step_call [where ev = "\<lambda>_. GetRelease _"])
   apply (simp add: inv1 RuntimeChart_def)
   apply (rule xrt)
    apply simp
   apply (simp add: placeholders_def)
  apply (rule behaves_weaken_post)
  apply (rule step_call0)
  apply (simp add: inv1 xapprt, simp add: RuntimeChart_def)
  done

lemma wait_step_live:
  "behaves (\<lambda>t. \<not> dryRun t) (\<lambda>t. True) (\<lambda>ev. True)
      (\<lambda>s. if \<not> dryRun (fst s) then
          (case call WaitUntilVirtualClusterIsReady
                  (waitUntilVirtualClusterIsReady ext (values' (fst s))) s of
             (Inl e, s') \<Rightarrow> (Inl e, s')
           | (Inr c, s') \<Rightarrow> (Inr (), (fst s')\<lparr> virtualClient := Some c \<rparr>, snd s'))
        else (Inr (), s)) [Wait] (\<lambda>a t. virtualClient t \<noteq> None)"
  by (auto simp: behaves_def call_def shape_def labels_def split: sum.splits)

lemma wait_step_dry:
  assumes "dryRun t0"
  shows "behaves (\<lambda>t. t = t0) (\<lambda>t. t = t0) X
      (\<lambda>s. if \<not> dryRun (fst s) then
          (case call WaitUntilVirtualClusterIsReady
                  (waitUntilVirtualClusterIsReady ext (values' (fst s))) s of
             (Inl e, s') \<Rightarrow> (Inl e, s')
           | (Inr c, s') \<Rightarrow> (Inr (), (fst s')\<lparr> virtualClient := Some c \<rparr>, snd s'))
        else (Inr (), s)) [] (\<lambda>a t. t = t0)"
  using assms by (simp add: behaves_def shape_def labels_def)

lemma Gardener_do_shape:
  "\<exists>new. snd (snd (Gardener_do ext (t, tr))) = tr @ new
     \<and> shape (\<lambda>ev. True) (fst (Gardener_do ext (t, tr))) new
          (programOrder (\<not> dryRun t) (\<not> dryRun t \<or> virtualClient t \<noteq> None))"
proof (cases "dryRun t")
  case False
  have "behaves (\<lambda>t. \<not> dryRun t) (\<lambda>t. True) (\<lambda>ev. True) (Gardener_do ext)
      (programOrder True True) (\<lambda>a t. True)"
    using Gardener_do_behaves [where mints = True and ext = ext, OF wait_step_live]
    by (simp add: programOrder_def)
  with False show ?thesis unfolding behaves_def by auto
next
  case True
  have "behaves (\<lambda>u. u = t) (\<lambda>u. u = t) (\<lambda>ev. True) (Gardener_do ext)
      (programOrder False (virtualClient t \<noteq> None)) (\<lambda>a u. True)"
    using Gardener_do_behaves [where mints = "virtualClient t \<noteq> None" and ext = ext
        and X = "\<lambda>ev. True", OF wait_step_dry [OF True]]
    by (cases "virtualClient t") (simp_all add: programOrder_def)
  with True show ?thesis unfolding behaves_def by auto
qed

lemma Gardener_do_dry:
  assumes "dryRun t" "virtualClient t = None"
  shows "\<exists>new. snd (snd (Gardener_do ext (t, tr))) = tr @ new
     \<and> shape dryEvent (fst (Gardener_do ext (t, tr))) new (programOrder False False)
     \<and> fst (snd (Gardener_do ext (t, tr))) = t"
proof -
  have "behaves (\<lambda>u. u = t) (\<lambda>u. u = t) dryEvent (Gardener_do ext)
      (programOrder False False) (\<lambda>a u. True)"
    using Gardener_do_behaves [where mints = False and ext = ext and X = dryEvent,
        OF wait_step_dry [OF assms(1)]] assms(2)
    by (simp add: programOrder_def ApplicationChart_def RuntimeChart_def placeholders_def)
  then show ?thesis unfolding behaves_def by auto
qed

lemma neverBefore_prefix: "prefix xs ys \<Longrightarrow> neverBefore P Q ys \<Longrightarrow> neverBefore P Q xs"
proof (induction xs arbitrary: ys)
  case Nil
  show ?case by simp
next
  case (Cons x xs)
  from Cons.prems(1) obtain zs where "ys = x # zs" "prefix xs zs" by (cases ys) auto
  with Cons show ?case by (auto split: if_splits)
qed

lemma neverAfter_prefix: "prefix xs ys \<Longrightarrow> neverAfter P Q ys \<Longrightarrow> neverAfter P Q xs"
proof (induction xs arbitrary: ys)
  case Nil
  show ?case by simp
next
  case (Cons x xs)
  from Cons.prems(1) obtain zs where z: "ys = x # zs" "prefix xs zs" by (cases ys) auto
  show ?case
  proof (cases "P x")
    case True
    with Cons.prems z have "list_all (\<lambda>y. \<not> Q y) zs" by simp
    with z(2) have "list_all (\<lambda>y. \<not> Q y) xs"
      by (auto simp: list_all_iff dest: set_mono_prefix)
    with True show ?thesis by simp
  next
    case False
    with Cons z show ?thesis by simp
  qed
qed

lemma programOrder_mint_after_application:
  "neverBefore (\<lambda>l. l = Apply ''gardener-application'') isMint (programOrder waits mints)"
  by (simp add: programOrder_def isMint_def)

lemma programOrder_no_mint_after_runtime:
  "neverAfter (\<lambda>l. l = Apply ''gardener-runtime'') isMint (programOrder waits mints)"
  by (simp add: programOrder_def isMint_def)

lemma programOrder_runtime_after_last_mint:
  "neverBefore (\<lambda>l. l = Mint ''gardener-admission-controller'')
      (\<lambda>l. l = Apply ''gardener-runtime'') (programOrder waits True)"
  by (simp add: programOrder_def)

lemma programOrder_runtime_after_application:
  "neverBefore (\<lambda>l. l = Apply ''gardener-application'')
      (\<lambda>l. l = Apply ''gardener-runtime'') (programOrder waits mints)"
  by (simp add: programOrder_def)

lemma programOrder_stops_at_application:
  assumes "prefix ls (programOrder waits mints)" "ls \<noteq> []"
    "last ls = Apply ''gardener-application''"
  shows "Apply ''gardener-runtime'' \<notin> set ls"
proof -
  from assms(1) have "ls \<in> set (prefixes (programOrder waits mints))"
    by (simp add: in_set_prefixes)
  with assms(2,3) show ?thesis
    by (cases waits; cases mints) (auto simp: programOrder_def)
qed

lemmas run_defs = Gardener_do_def Let_def andThen_def call_def
  Gardener_getKubeConfigForServiceAccount_def new_Gardener_def exampleExternals_def
  ApplicationChart_def RuntimeChart_def GardenerVersion_def

lemma run_fail:
  "Gardener_do (exampleExternals False) (new_Gardener \<lparr> getKubeConfig = ''host'' \<rparr> () False, [])
   = (Inl (InfrastructureError ''apply failed''),
      \<lparr> hostClient = \<lparr> getKubeConfig = ''host'' \<rparr>, values' = (), dryRun = False,
        virtualClient = Some \<lparr> getKubeConfig = ''virtual'' \<rparr> \<rparr>,
      [(LogInfo ''Installing Gardener version v1.41.1'', None),
       (WaitUntilVirtualClusterIsReady, None),
       (LogInfo ''Install Gardener Controlplane'', None),
       (GetRelease \<lparr> name = ''gardener-application'', renderValues = exampleValues \<rparr>, None),
       (HelmCreateOrUpdate \<lparr> name = ''gardener-application'', renderValues = exampleValues \<rparr>
          ''gardener-application'' (Some ''virtual''),
        Some (InfrastructureError ''apply failed''))])"
  by (simp add: run_defs)

lemma run_dry:
  "Gardener_do (exampleExternals True) (new_Gardener \<lparr> getKubeConfig = ''host'' \<rparr> () True, [])
   = (Inr (),
      new_Gardener \<lparr> getKubeConfig = ''host'' \<rparr> () True,
      [(LogInfo ''Installing Gardener version v1.41.1'', None),
       (LogInfo ''Install Gardener Controlplane'', None),
       (GetRelease \<lparr> name = ''gardener-application'', renderValues = exampleValues \<rparr>, None),
       (HelmCreateOrUpdate \<lparr> name = ''gardener-application'', renderValues = exampleValues \<rparr>
          ''gardener-application'' None, None),
       (GetRelease \<lparr> name = ''gardener-runtime'', renderValues =
          \<lparr> global = \<lparr> apiserver = \<lparr> kubeconfig = ''dumy-gardener-apiserver'' \<rparr>,
                  controller = \<lparr> kubeconfig = ''dumy-gardener-controller-manager'' \<rparr>,
                  admission = \<lparr> kubeconfig = ''dumy-gardener-admission-controller'' \<rparr>,
                  scheduler = \<lparr> kubeconfig = ''dumy-gardener-scheduler'' \<rparr> \<rparr> \<rparr> \<rparr>, None),
       (HelmCreateOrUpdate \<lparr> name = ''gardener-runtime'', renderValues =
          \<lparr> global = \<lparr> apiserver = \<lparr> kubeconfig = ''dumy-gardener-apiserver'' \<rparr>,
                  controller = \<lparr> kubeconfig = ''dumy-gardener-controller-manager'' \<rparr>,
                  admission = \<lparr> kubeconfig = ''dumy-gardener-admission-controller'' \<rparr>,
                  scheduler = \<lparr> kubeconfig = ''dumy-gardener-scheduler'' \<rparr> \<rparr> \<rparr> \<rparr>
          ''gardener-runtime'' None, None)])"
  by (simp add: run_defs exampleValues_def)

lemma dryEvent_label: "dryEvent ev \<Longrightarrow> labelOf ev \<noteq> Wait \<and> \<not> isMint (labelOf ev)"
  by (cases ev) (simp_all add: isMint_def)

text \<open>
  Claim C8. In every run of \<^verbatim>\<open>do\<close>, from any task and with any behaviour of the
  collaborators, the calls are made in the order of the program, and the run ends at the
  first call that throws. So no credential is requested before the application chart has
  been applied, none after the runtime chart has been applied, the runtime chart is
  applied only after the application chart (and, outside a dry run, after the last
  credential request), and when applying the application chart throws, the runtime chart
  is never applied.
\<close>

theorem Gardener_do_order:
  "\<exists>new. snd (snd (Gardener_do ext (t, tr))) = tr @ new
     \<and> prefix (labels new)
          (programOrder (\<not> dryRun t) (\<not> dryRun t \<or> virtualClient t \<noteq> None))
     \<and> (fst (Gardener_do ext (t, tr)) = Inr () \<longrightarrow>
          labels new = programOrder (\<not> dryRun t) (\<not> dryRun t \<or> virtualClient t \<noteq> None)
          \<and> list_all (\<lambda>x. snd x = None) new)
     \<and> list_all (\<lambda>x. snd x = None) (butlast new)
     \<and> (\<forall>e. fst (Gardener_do ext (t, tr)) = Inl e \<longrightarrow>
          list_all (\<lambda>x. snd x = None \<or> snd x = Some e) new)
     \<and> neverBefore (\<lambda>l. l = Apply ''gardener-application'') isMint (labels new)
     \<and> neverAfter (\<lambda>l. l = Apply ''gardener-runtime'') isMint (labels new)
     \<and> (\<not> dryRun t \<longrightarrow>
          neverBefore (\<lambda>l. l = Mint ''gardener-admission-controller'')
            (\<lambda>l. l = Apply ''gardener-runtime'') (labels new))
     \<and> neverBefore (\<lambda>l. l = Apply ''gardener-application'')
          (\<lambda>l. l = Apply ''gardener-runtime'') (labels new)
     \<and> (\<forall>x\<in>set new. labelOf (fst x) = Apply ''gardener-application'' \<and> snd x \<noteq> None \<longrightarrow>
          Apply ''gardener-runtime'' \<notin> set (labels new))"
proof -
  let ?L = "programOrder (\<not> dryRun t) (\<not> dryRun t \<or> virtualClient t \<noteq> None)"
  let ?res = "fst (Gardener_do ext (t, tr))"
  from Gardener_do_shape [of ext t tr] obtain new
    where tr: "snd (snd (Gardener_do ext (t, tr))) = tr @ new"
      and sh: "shape (\<lambda>ev. True) ?res new ?L"
    by blast
  from sh have pre: "prefix (labels new) ?L"
    and but: "list_all (\<lambda>x. snd x = None) (butlast new)"
    by (simp_all add: shape_def)
  from sh have ok: "?res = Inr () \<longrightarrow> labels new = ?L \<and> list_all (\<lambda>x. snd x = None) new"
    by (auto simp: shape_def)
  from sh have bad: "\<forall>e. ?res = Inl e \<longrightarrow> list_all (\<lambda>x. snd x = None \<or> snd x = Some e) new"
    by (auto simp: shape_def)
  have o1: "neverBefore (\<lambda>l. l = Apply ''gardener-application'') isMint (labels new)"
    by (rule neverBefore_prefix [OF pre programOrder_mint_after_application])
  have o2: "neverAfter (\<lambda>l. l = Apply ''gardener-runtime'') isMint (labels new)"
    by (rule neverAfter_prefix [OF pre programOrder_no_mint_after_runtime])
  have o3: "\<not> dryRun t \<longrightarrow> neverBefore (\<lambda>l. l = Mint ''gardener-admission-controller'')
            (\<lambda>l. l = Apply ''gardener-runtime'') (labels new)"
  proof
    assume "\<not> dryRun t"
    with pre have "prefix (labels new) (programOrder True True)" by simp
    then show "neverBefore (\<lambda>l. l = Mint ''gardener-admission-controller'')
            (\<lambda>l. l = Apply ''gardener-runtime'') (labels new)"
      by (rule neverBefore_prefix [OF _ programOrder_runtime_after_last_mint])
  qed
  have o4: "neverBefore (\<lambda>l. l = Apply ''gardener-application'')
          (\<lambda>l. l = Apply ''gardener-runtime'') (labels new)"
    by (rule neverBefore_prefix [OF pre programOrder_runtime_after_application])
  have stop: "\<forall>x\<in>set new. labelOf (fst x) = Apply ''gardener-application'' \<and> snd x \<noteq> None \<longrightarrow>
          Apply ''gardener-runtime'' \<notin> set (labels new)"
  proof (intro ballI impI)
    fix x assume x: "x \<in> set new"
      and f: "labelOf (fst x) = Apply ''gardener-application'' \<and> snd x \<noteq> None"
    from x have ne: "new \<noteq> []" by auto
    from but f have "x \<notin> set (butlast new)" by (auto simp: list_all_iff)
    moreover from ne have "set new = insert (last new) (set (butlast new))"
      by (induction new) auto
    ultimately have "x = last new" using x by simp
    with f ne have "last (labels new) = Apply ''gardener-application''" "labels new \<noteq> []"
      by (simp_all add: labels_def last_map)
    with pre show "Apply ''gardener-runtime'' \<notin> set (labels new)"
      by (intro programOrder_stops_at_application)
  qed
  from tr pre ok but bad o1 o2 o3 o4 stop show ?thesis by blast
qed

theorem Gardener_do_order_witness:
  "snd (snd (Gardener_do (exampleExternals False)
       (new_Gardener \<lparr> getKubeConfig = ''host'' \<rparr> () False, [])))
     = [(LogInfo ''Installing Gardener version v1.41.1'', None),
        (WaitUntilVirtualClusterIsReady, None),
        (LogInfo ''Install Gardener Controlplane'', None),
        (GetRelease \<lparr> name = ''gardener-application'', renderValues = exampleValues \<rparr>, None),
        (HelmCreateOrUpdate \<lparr> name = ''gardener-application'', renderValues = exampleValues \<rparr>
           ''gardener-application'' (Some ''virtual''),
         Some (InfrastructureError ''apply failed''))]
   \<and> fst (Gardener_do (exampleExternals False)
       (new_Gardener \<lparr> getKubeConfig = ''host'' \<rparr> () False, []))
     = Inl (InfrastructureError ''apply failed'')
   \<and> Apply ''gardener-runtime'' \<notin> set (labels (snd (snd (Gardener_do (exampleExternals False)
       (new_Gardener \<lparr> getKubeConfig = ''host'' \<rparr> () False, [])))))
   \<and> labels (snd (snd (Gardener_do (exampleExternals True)
       (new_Gardener \<lparr> getKubeConfig = ''host'' \<rparr> () False, []))))
     = programOrder True True"
proof -
  let ?t = "new_Gardener \<lparr> getKubeConfig = ''host'' \<rparr> () False"
  let ?x = "(HelmCreateOrUpdate \<lparr> name = ''gardener-application'', renderValues = exampleValues \<rparr>
           ''gardener-application'' (Some ''virtual''),
         Some (InfrastructureError ''apply failed''))"
  from Gardener_do_order [of "exampleExternals False" ?t "[]"] obtain new
    where n: "snd (snd (Gardener_do (exampleExternals False) (?t, []))) = [] @ new"
      and s: "\<forall>x\<in>set new. labelOf (fst x) = Apply ''gardener-application'' \<and> snd x \<noteq> None \<longrightarrow>
          Apply ''gardener-runtime'' \<notin> set (labels new)"
    by blast
  from n have new: "new = snd (snd (Gardener_do (exampleExternals False) (?t, [])))" by simp
  have "?x \<in> set new" "labelOf (fst ?x) = Apply ''gardener-application''" "snd ?x \<noteq> None"
    by (simp_all add: new run_fail)
  with s have 1: "Apply ''gardener-runtime'' \<notin> set (labels new)" by blast
  have d: "\<not> dryRun ?t" by (simp add: new_Gardener_def)
  from Gardener_do_order [of "exampleExternals True" ?t "[]"] obtain new'
    where n': "snd (snd (Gardener_do (exampleExternals True) (?t, []))) = [] @ new'"
      and ok: "fst (Gardener_do (exampleExternals True) (?t, [])) = Inr () \<longrightarrow>
          labels new' = programOrder (\<not> dryRun ?t) (\<not> dryRun ?t \<or> virtualClient ?t \<noteq> None)"
    by blast
  have "fst (Gardener_do (exampleExternals True) (?t, [])) = Inr ()"
    by (simp add: run_defs)
  with ok d n' have 2: "labels (snd (snd (Gardener_do (exampleExternals True) (?t, []))))
      = programOrder True True"
    by simp
  from 1 2 show ?thesis by (simp add: new run_fail)
qed

text \<open>
  Claim C9. A task with the dry-run flag set and no client of the virtual cluster (as the
  constructor leaves it) makes no readiness wait and no credential request in a run of
  \<^verbatim>\<open>do\<close>: every call is one a dry run may make, the task is left as it was, so still
  without a client, and \<^verbatim>\<open>getKubeConfigForServiceAccount(name)\<close> returns the placeholder
  \<^verbatim>\<open>dumy-\<close> followed by the name, without a call.
\<close>

theorem dry_run_uses_placeholders:
  assumes "dryRun t" and "virtualClient t = None"
  shows "\<exists>new. snd (snd (Gardener_do ext (t, tr))) = tr @ new
     \<and> prefix (labels new) (programOrder False False)
     \<and> Wait \<notin> set (labels new)
     \<and> list_all (\<lambda>l. \<not> isMint l) (labels new)
     \<and> list_all (\<lambda>x. dryEvent (fst x)) new
     \<and> fst (snd (Gardener_do ext (t, tr))) = t
     \<and> (\<forall>nm h. Gardener_getKubeConfigForServiceAccount ext nm (t, h)
                 = (Inr (''dumy-'' @ nm), t, h))
     \<and> dryRun (new_Gardener hc vals True) \<and> virtualClient (new_Gardener hc vals True) = None"
proof -
  have made: "dryRun (new_Gardener hc vals True)" "virtualClient (new_Gardener hc vals True) = None"
    by (simp_all add: new_Gardener_def)
  from Gardener_do_dry [OF assms, of ext tr] obtain new
    where tr: "snd (snd (Gardener_do ext (t, tr))) = tr @ new"
      and sh: "shape dryEvent (fst (Gardener_do ext (t, tr))) new (programOrder False False)"
      and same: "fst (snd (Gardener_do ext (t, tr))) = t"
    by blast
  from sh have pre: "prefix (labels new) (programOrder False False)"
    and dry: "list_all (\<lambda>x. dryEvent (fst x)) new"
    by (simp_all add: shape_def)
  from dry have "\<forall>x\<in>set new. labelOf (fst x) \<noteq> Wait \<and> \<not> isMint (labelOf (fst x))"
    by (auto simp: list_all_iff dest: dryEvent_label)
  then have nw: "Wait \<notin> set (labels new)" and nm: "list_all (\<lambda>l. \<not> isMint l) (labels new)"
    by (auto simp: labels_def list_all_iff)
  have req: "\<forall>nm h. Gardener_getKubeConfigForServiceAccount ext nm (t, h)
                 = (Inr (''dumy-'' @ nm), t, h)"
    using assms(2) by (simp add: Gardener_getKubeConfigForServiceAccount_def)
  from tr pre nw nm dry same req made show ?thesis by blast
qed

theorem dry_run_uses_placeholders_witness:
  "dryRun (new_Gardener \<lparr> getKubeConfig = ''host'' \<rparr> () True)
   \<and> virtualClient (new_Gardener \<lparr> getKubeConfig = ''host'' \<rparr> () True) = None
   \<and> Gardener_do (exampleExternals True) (new_Gardener \<lparr> getKubeConfig = ''host'' \<rparr> () True, [])
   = (Inr (),
      new_Gardener \<lparr> getKubeConfig = ''host'' \<rparr> () True,
      [(LogInfo ''Installing Gardener version v1.41.1'', None),
       (LogInfo ''Install Gardener Controlplane'', None),
       (GetRelease \<lparr> name = ''gardener-application'', renderValues = exampleValues \<rparr>, None),
       (HelmCreateOrUpdate \<lparr> name = ''gardener-application'', renderValues = exampleValues \<rparr>
          ''gardener-application'' None, None),
       (GetRelease \<lparr> name = ''gardener-runtime'', renderValues =
          \<lparr> global = \<lparr> apiserver = \<lparr> kubeconfig = ''dumy-gardener-apiserver'' \<rparr>,
                  controller = \<lparr> kubeconfig = ''dumy-gardener-controller-manager'' \<rparr>,
                  admission = \<lparr> kubeconfig = ''dumy-gardener-admission-controller'' \<rparr>,
                  scheduler = \<lparr> kubeconfig = ''dumy-gardener-scheduler'' \<rparr> \<rparr> \<rparr> \<rparr>, None),
       (HelmCreateOrUpdate \<lparr> name = ''gardener-runtime'', renderValues =
          \<lparr> global = \<lparr> apiserver = \<lparr> kubeconfig = ''dumy-gardener-apiserver'' \<rparr>,
                  controller = \<lparr> kubeconfig = ''dumy-gardener-controller-manager'' \<rparr>,
                  admission = \<lparr> kubeconfig = ''dumy-gardener-admission-controller'' \<rparr>,
                  scheduler = \<lparr> kubeconfig = ''dumy-gardener-scheduler'' \<rparr> \<rparr> \<rparr> \<rparr>
          ''gardener-runtime'' None, None)])
   \<and> Gardener_getKubeConfigForServiceAccount (exampleExternals True) ''gardener-scheduler''
        (new_Gardener \<lparr> getKubeConfig = ''host'' \<rparr> () True, [])
      = (Inr ''dumy-gardener-scheduler'', new_Gardener \<lparr> getKubeConfig = ''host'' \<rparr> () True, [])"
proof -
  let ?t = "new_Gardener \<lparr> getKubeConfig = ''host'' \<rparr> () True"
  have d: "dryRun ?t" and c: "virtualClient ?t = None"
    by (simp_all add: new_Gardener_def)
  from dry_run_uses_placeholders [where ext = "exampleExternals True" and tr = "[]"
      and hc = "\<lparr> getKubeConfig = ''host'' \<rparr>" and vals = "()", OF d c]
  have "Gardener_getKubeConfigForServiceAccount (exampleExternals True) ''gardener-scheduler''
        (?t, []) = (Inr (''dumy-'' @ ''gardener-scheduler''), ?t, [])"
    by blast
  with d c run_dry show ?thesis by simp
qed

end
